theory Spec2Isabelle
  imports Main "HOL-Library.Word" "HOL-Library.Multiset" "HOL-Library.AList"
begin

section \<open>Basic types (pkg/types)\<close>

text \<open>
  \<^verbatim>\<open>Address\<close> is a 20-byte array and \<^verbatim>\<open>Hash\<close> a 32-byte array; \<^verbatim>\<open>uint64\<close> is a 64-bit
  word whose arithmetic wraps; \<^verbatim>\<open>*big.Int\<close> amounts are unbounded integers. The
  \<^verbatim>\<open>time.Time\<close> fields of the structs are never read by the functions embedded below
  and are left out of the records.
\<close>

type_synonym Address = "160 word"
type_synonym Hash = "256 word"
type_synonym uint64 = "64 word"
type_synonym bytes = "8 word list"

definition MaxValidators :: nat where
  "MaxValidators = 21"

definition UnbondingPeriod :: uint64 where
  "UnbondingPeriod = 201600"

text \<open>\<^verbatim>\<open>ToWei(float64(MinStakeAmount))\<close>: 100000 tokens of 18 decimals.\<close>

definition MinStakeWei :: int where
  "MinStakeWei = 100000 * 10 ^ 18"

datatype error =
    ErrKeyNotFound
  | ErrJSON
  | ErrStorage
  | ErrInvalidNonce
  | ErrInsufficientBalance
  | ErrInsufficientBalanceForStaking
  | ErrInsufficientStakedAmount
  | ErrInsufficientBalanceForDelegation
  | ErrValidatorNotFound
  | ErrValidatorAlreadyRegistered
  | ErrInsufficientSelfStake
  | ErrDelegationNotFound
  | ErrInsufficientDelegatedAmount
  | ErrInsufficientBalanceForSelfStake
  | ErrUnknownTransactionType
  | ErrNoActiveValidators
  | ErrUnknownSlashingReason
  | ErrAlreadyInMempool
  | ErrInvalidTxValue
  | ErrInvalidGasLimit
  | ErrInvalidGasPrice
  | ErrMissingSignature

subsection \<open>Account (pkg/types/account.go)\<close>

record Account =
  acc_Address :: Address
  acc_Balance :: int
  acc_Nonce :: uint64
  acc_Staked :: int
  acc_Locked :: int

definition NewAccount :: "Address \<Rightarrow> Account" where
  "NewAccount addr =
     \<lparr>acc_Address = addr, acc_Balance = 0, acc_Nonce = 0, acc_Staked = 0, acc_Locked = 0\<rparr>"

definition AddBalance :: "Account \<Rightarrow> int \<Rightarrow> Account" where
  "AddBalance a amount = a\<lparr>acc_Balance := acc_Balance a + amount\<rparr>"

text \<open>\<^verbatim>\<open>SubBalance\<close> and \<^verbatim>\<open>SubStake\<close> report success and leave the account alone on failure.\<close>

definition SubBalance :: "Account \<Rightarrow> int \<Rightarrow> bool \<times> Account" where
  "SubBalance a amount =
     (if acc_Balance a < amount then (False, a)
      else (True, a\<lparr>acc_Balance := acc_Balance a - amount\<rparr>))"

definition AddStake :: "Account \<Rightarrow> int \<Rightarrow> Account" where
  "AddStake a amount = a\<lparr>acc_Staked := acc_Staked a + amount\<rparr>"

definition SubStake :: "Account \<Rightarrow> int \<Rightarrow> bool \<times> Account" where
  "SubStake a amount =
     (if acc_Staked a < amount then (False, a)
      else (True, a\<lparr>acc_Staked := acc_Staked a - amount\<rparr>))"

subsection \<open>Validator, Delegation, UnbondingDelegation (pkg/types/validator.go)\<close>

datatype ValidatorStatus =
    ValidatorStatusActive
  | ValidatorStatusInactive
  | ValidatorStatusJailed
  | ValidatorStatusUnbonding

record Validator =
  val_Address :: Address
  val_PublicKey :: bytes
  val_VotingPower :: int
  val_SelfStake :: int
  val_Commission :: uint64
  val_Status :: ValidatorStatus
  val_Jailed :: bool
  val_MissedBlocks :: uint64
  val_ProducedBlocks :: uint64
  val_LastActiveEpoch :: uint64
  val_TotalRewards :: int

record Delegation =
  del_Delegator :: Address
  del_Validator :: Address
  del_Amount :: int
  del_Rewards :: int

record UnbondingDelegation =
  ubd_Delegator :: Address
  ubd_Validator :: Address
  ubd_Amount :: int
  ubd_CompletionBlock :: uint64

definition NewValidator :: "Address \<Rightarrow> bytes \<Rightarrow> int \<Rightarrow> uint64 \<Rightarrow> Validator" where
  "NewValidator addr pubKey selfStake commission =
     \<lparr>val_Address = addr, val_PublicKey = pubKey, val_VotingPower = selfStake,
      val_SelfStake = selfStake, val_Commission = commission,
      val_Status = ValidatorStatusActive, val_Jailed = False, val_MissedBlocks = 0,
      val_ProducedBlocks = 0, val_LastActiveEpoch = 0, val_TotalRewards = 0\<rparr>"

definition IsActive :: "Validator \<Rightarrow> bool" where
  "IsActive v \<longleftrightarrow> val_Status v = ValidatorStatusActive \<and> \<not> val_Jailed v"

definition CanProduceBlocks :: "Validator \<Rightarrow> bool" where
  "CanProduceBlocks v \<longleftrightarrow> IsActive v \<and> val_VotingPower v \<ge> MinStakeWei"

definition AddVotingPower :: "Validator \<Rightarrow> int \<Rightarrow> Validator" where
  "AddVotingPower v amount = v\<lparr>val_VotingPower := val_VotingPower v + amount\<rparr>"

definition SubVotingPower :: "Validator \<Rightarrow> int \<Rightarrow> Validator" where
  "SubVotingPower v amount =
     (let p = val_VotingPower v - amount
      in if p < 0 then v\<lparr>val_VotingPower := 0\<rparr> else v\<lparr>val_VotingPower := p\<rparr>)"

definition NewDelegation :: "Address \<Rightarrow> Address \<Rightarrow> int \<Rightarrow> Delegation" where
  "NewDelegation delegator validator amount =
     \<lparr>del_Delegator = delegator, del_Validator = validator, del_Amount = amount,
      del_Rewards = 0\<rparr>"

section \<open>Transactions (pkg/core)\<close>

text \<open>
  The executor reads \<^verbatim>\<open>tx.Data\<close> only through \<^verbatim>\<open>json.Unmarshal\<close>, into a \<^verbatim>\<open>StakeData\<close>
  or into a \<^verbatim>\<open>CreateValidatorData\<close>. The payload is therefore carried as the outcome
  of those two decodings: \<open>None\<close> is a decoding error, and a \<^verbatim>\<open>*big.Int\<close> field that the
  JSON text leaves out is the nil pointer, \<open>None\<close> again.
\<close>

record StakeData =
  sd_Validator :: Address
  sd_Amount :: "int option"

record CreateValidatorData =
  cv_PublicKey :: bytes
  cv_Commission :: uint64
  cv_SelfStake :: "int option"

record TxData =
  as_StakeData :: "StakeData option"
  as_CreateValidatorData :: "CreateValidatorData option"

type_synonym TxType = "8 word"

definition TxTypeTransfer :: TxType where "TxTypeTransfer = 0"
definition TxTypeStake :: TxType where "TxTypeStake = 1"
definition TxTypeUnstake :: TxType where "TxTypeUnstake = 2"
definition TxTypeDelegate :: TxType where "TxTypeDelegate = 3"
definition TxTypeUndelegate :: TxType where "TxTypeUndelegate = 4"
definition TxTypeVote :: TxType where "TxTypeVote = 5"
definition TxTypeCreateValidator :: TxType where "TxTypeCreateValidator = 6"
definition TxTypeEditValidator :: TxType where "TxTypeEditValidator = 7"

record Transaction =
  tx_Hash :: Hash
  tx_Type :: TxType
  tx_From :: Address
  tx_To :: Address
  tx_Value :: int
  tx_Data :: TxData
  tx_Nonce :: uint64
  tx_GasLimit :: uint64
  tx_GasPrice :: int
  tx_Signature :: bytes

text \<open>
  \<^verbatim>\<open>GetCost\<close>: the gas limit goes through \<^verbatim>\<open>int64(tx.GasLimit)\<close>, which reads the 64 bits
  as a two's complement number.
\<close>

definition GetCost :: "Transaction \<Rightarrow> int" where
  "GetCost tx = tx_Value tx + sint (tx_GasLimit tx) * tx_GasPrice tx"

definition Validate :: "Transaction \<Rightarrow> error option" where
  "Validate tx =
     (if tx_Value tx < 0 then Some ErrInvalidTxValue
      else if tx_GasLimit tx = 0 then Some ErrInvalidGasLimit
      else if tx_GasPrice tx \<le> 0 then Some ErrInvalidGasPrice
      else if length (tx_Signature tx) = 0 then Some ErrMissingSignature
      else None)"

record Block =
  blk_Number :: uint64
  blk_Validator :: Address
  blk_Transactions :: "Transaction list"

section \<open>The state database (pkg/storage/statedb.go)\<close>

text \<open>
  The key-value store holds three families of keys, \<^verbatim>\<open>account:<addr>\<close>,
  \<^verbatim>\<open>validator:<addr>\<close> and \<^verbatim>\<open>delegation:<delegator>:<validator>\<close>; the values are the
  JSON encodings of the structs. The embedding keeps one typed map per family. A read
  of a missing key is the store's key-not-found error.

  \<^verbatim>\<open>Database.Put\<close> and \<^verbatim>\<open>Database.Delete\<close> return an error when the store cannot write.
  Whether a write fails is decided outside the program, so the state carries the
  outcomes of the writes to come: each write takes the head of \<open>db_writeFaults\<close>, and
  \<open>True\<close> there makes it fail with the store's error and write nothing; once the list
  is used up every write succeeds.
\<close>

record StateDB =
  db_accounts :: "Address \<rightharpoonup> Account"
  db_validators :: "Address \<rightharpoonup> Validator"
  db_delegations :: "Address \<times> Address \<rightharpoonup> Delegation"
  db_writeFaults :: "bool list"

definition nextWrite :: "StateDB \<Rightarrow> error option \<times> StateDB" where
  "nextWrite s =
     (case db_writeFaults s of
        [] \<Rightarrow> (None, s)
      | failing # rest \<Rightarrow>
          (if failing then Some ErrStorage else None, s\<lparr>db_writeFaults := rest\<rparr>))"

definition GetAccount :: "StateDB \<Rightarrow> Address \<Rightarrow> error + Account" where
  "GetAccount s addr =
     (case db_accounts s addr of None \<Rightarrow> Inl ErrKeyNotFound | Some a \<Rightarrow> Inr a)"

definition SetAccount :: "StateDB \<Rightarrow> Account \<Rightarrow> error option \<times> StateDB" where
  "SetAccount s account =
     (case nextWrite s of
        (Some err, s1) \<Rightarrow> (Some err, s1)
      | (None, s1) \<Rightarrow>
          (None, s1\<lparr>db_accounts := (db_accounts s1)(acc_Address account \<mapsto> account)\<rparr>))"

definition GetValidator :: "StateDB \<Rightarrow> Address \<Rightarrow> error + Validator" where
  "GetValidator s addr =
     (case db_validators s addr of None \<Rightarrow> Inl ErrKeyNotFound | Some v \<Rightarrow> Inr v)"

definition SetValidator :: "StateDB \<Rightarrow> Validator \<Rightarrow> error option \<times> StateDB" where
  "SetValidator s validator =
     (case nextWrite s of
        (Some err, s1) \<Rightarrow> (Some err, s1)
      | (None, s1) \<Rightarrow>
          (None,
           s1\<lparr>db_validators := (db_validators s1)(val_Address validator \<mapsto> validator)\<rparr>))"

definition GetDelegation :: "StateDB \<Rightarrow> Address \<Rightarrow> Address \<Rightarrow> error + Delegation" where
  "GetDelegation s delegator validator =
     (case db_delegations s (delegator, validator) of
        None \<Rightarrow> Inl ErrKeyNotFound
      | Some d \<Rightarrow> Inr d)"

definition SetDelegation :: "StateDB \<Rightarrow> Delegation \<Rightarrow> error option \<times> StateDB" where
  "SetDelegation s delegation =
     (case nextWrite s of
        (Some err, s1) \<Rightarrow> (Some err, s1)
      | (None, s1) \<Rightarrow>
          (None,
           s1\<lparr>db_delegations :=
                (db_delegations s1)
                  ((del_Delegator delegation, del_Validator delegation) \<mapsto> delegation)\<rparr>))"

definition DeleteDelegation :: "StateDB \<Rightarrow> Address \<Rightarrow> Address \<Rightarrow> error option \<times> StateDB" where
  "DeleteDelegation s delegator validator =
     (case nextWrite s of
        (Some err, s1) \<Rightarrow> (Some err, s1)
      | (None, s1) \<Rightarrow>
          (None, s1\<lparr>db_delegations := (db_delegations s1)((delegator, validator) := None)\<rparr>))"

section \<open>The executor (pkg/core, Executor)\<close>

text \<open>
  A call of the executor returns nil, returns an error, or panics. A panic is the
  dereference of a nil \<^verbatim>\<open>*big.Int\<close>: the comparison \<^verbatim>\<open>Cmp\<close> with an amount that the
  payload left out. Nothing recovers from it; it is an outcome of its own and not an
  error that the call returns. Every function gives its outcome together with the state
  database as it leaves it.
\<close>

datatype outcome = Ok | Failed error | Panicked

definition executeTransfer :: "StateDB \<Rightarrow> Transaction \<Rightarrow> outcome \<times> StateDB" where
  "executeTransfer s tx =
     (case GetAccount s (tx_From tx) of
        Inl err \<Rightarrow> (Failed err, s)
      | Inr sender \<Rightarrow>
          if acc_Nonce sender \<noteq> tx_Nonce tx then (Failed ErrInvalidNonce, s)
          else
            let cost = GetCost tx in
            if acc_Balance sender < cost then (Failed ErrInsufficientBalance, s)
            else
              let sender1 = snd (SubBalance sender cost);
                  sender2 = sender1\<lparr>acc_Nonce := acc_Nonce sender1 + 1\<rparr>;
                  recipient = (case GetAccount s (tx_To tx) of
                                 Inl err \<Rightarrow> NewAccount (tx_To tx)
                               | Inr r \<Rightarrow> r);
                  recipient1 = AddBalance recipient (tx_Value tx)
              in (case SetAccount s sender2 of
                    (Some err, s1) \<Rightarrow> (Failed err, s1)
                  | (None, s1) \<Rightarrow>
                      (case SetAccount s1 recipient1 of
                         (Some err, s2) \<Rightarrow> (Failed err, s2)
                       | (None, s2) \<Rightarrow> (Ok, s2))))"

definition executeStake :: "StateDB \<Rightarrow> Transaction \<Rightarrow> outcome \<times> StateDB" where
  "executeStake s tx =
     (case as_StakeData (tx_Data tx) of
        None \<Rightarrow> (Failed ErrJSON, s)
      | Some data \<Rightarrow>
          (case GetAccount s (tx_From tx) of
             Inl err \<Rightarrow> (Failed err, s)
           | Inr account \<Rightarrow>
               (case sd_Amount data of
                  None \<Rightarrow> (Panicked, s)
                | Some amount \<Rightarrow>
                    if acc_Balance account < amount
                    then (Failed ErrInsufficientBalanceForStaking, s)
                    else
                      let account1 = snd (SubBalance account amount);
                          account2 = AddStake account1 amount;
                          account3 = account2\<lparr>acc_Nonce := acc_Nonce account2 + 1\<rparr>
                      in (case SetAccount s account3 of
                            (Some err, s1) \<Rightarrow> (Failed err, s1)
                          | (None, s1) \<Rightarrow> (Ok, s1)))))"

definition executeUnstake :: "StateDB \<Rightarrow> Transaction \<Rightarrow> outcome \<times> StateDB" where
  "executeUnstake s tx =
     (case as_StakeData (tx_Data tx) of
        None \<Rightarrow> (Failed ErrJSON, s)
      | Some data \<Rightarrow>
          (case GetAccount s (tx_From tx) of
             Inl err \<Rightarrow> (Failed err, s)
           | Inr account \<Rightarrow>
               (case sd_Amount data of
                  None \<Rightarrow> (Panicked, s)
                | Some amount \<Rightarrow>
                    if acc_Staked account < amount
                    then (Failed ErrInsufficientStakedAmount, s)
                    else
                      let account1 = snd (SubStake account amount);
                          account2 = account1\<lparr>acc_Locked := acc_Locked account1 + amount\<rparr>;
                          account3 = account2\<lparr>acc_Nonce := acc_Nonce account2 + 1\<rparr>
                      in (case SetAccount s account3 of
                            (Some err, s1) \<Rightarrow> (Failed err, s1)
                          | (None, s1) \<Rightarrow> (Ok, s1)))))"

definition executeDelegate :: "StateDB \<Rightarrow> Transaction \<Rightarrow> outcome \<times> StateDB" where
  "executeDelegate s tx =
     (case as_StakeData (tx_Data tx) of
        None \<Rightarrow> (Failed ErrJSON, s)
      | Some data \<Rightarrow>
          (case GetAccount s (tx_From tx) of
             Inl err \<Rightarrow> (Failed err, s)
           | Inr account \<Rightarrow>
               (case sd_Amount data of
                  None \<Rightarrow> (Panicked, s)
                | Some amount \<Rightarrow>
                    if acc_Balance account < amount
                    then (Failed ErrInsufficientBalanceForDelegation, s)
                    else
                      (case GetValidator s (sd_Validator data) of
                         Inl err \<Rightarrow> (Failed ErrValidatorNotFound, s)
                       | Inr validator \<Rightarrow>
                           let delegation =
                                 (case GetDelegation s (tx_From tx) (sd_Validator data) of
                                    Inl err \<Rightarrow>
                                      NewDelegation (tx_From tx) (sd_Validator data) amount
                                  | Inr d \<Rightarrow> d\<lparr>del_Amount := del_Amount d + amount\<rparr>);
                               account1 = snd (SubBalance account amount);
                               account2 = AddStake account1 amount;
                               account3 = account2\<lparr>acc_Nonce := acc_Nonce account2 + 1\<rparr>;
                               validator1 = AddVotingPower validator amount
                           in (case SetAccount s account3 of
                                 (Some err, s1) \<Rightarrow> (Failed err, s1)
                               | (None, s1) \<Rightarrow>
                                   (case SetValidator s1 validator1 of
                                      (Some err, s2) \<Rightarrow> (Failed err, s2)
                                    | (None, s2) \<Rightarrow>
                                        (case SetDelegation s2 delegation of
                                           (Some err, s3) \<Rightarrow> (Failed err, s3)
                                         | (None, s3) \<Rightarrow> (Ok, s3))))))))"

definition executeUndelegate :: "StateDB \<Rightarrow> Transaction \<Rightarrow> outcome \<times> StateDB" where
  "executeUndelegate s tx =
     (case as_StakeData (tx_Data tx) of
        None \<Rightarrow> (Failed ErrJSON, s)
      | Some data \<Rightarrow>
          (case GetDelegation s (tx_From tx) (sd_Validator data) of
             Inl err \<Rightarrow> (Failed ErrDelegationNotFound, s)
           | Inr delegation \<Rightarrow>
               (case sd_Amount data of
                  None \<Rightarrow> (Panicked, s)
                | Some amount \<Rightarrow>
                    if del_Amount delegation < amount
                    then (Failed ErrInsufficientDelegatedAmount, s)
                    else
                      (case GetValidator s (sd_Validator data) of
                         Inl err \<Rightarrow> (Failed err, s)
                       | Inr validator \<Rightarrow>
                           (case GetAccount s (tx_From tx) of
                              Inl err \<Rightarrow> (Failed err, s)
                            | Inr account \<Rightarrow>
                                let delegation1 =
                                      delegation\<lparr>del_Amount := del_Amount delegation - amount\<rparr>;
                                    validator1 = SubVotingPower validator amount;
                                    account1 = snd (SubStake account amount);
                                    account2 =
                                      account1\<lparr>acc_Locked := acc_Locked account1 + amount\<rparr>;
                                    account3 =
                                      account2\<lparr>acc_Nonce := acc_Nonce account2 + 1\<rparr>
                                in (case SetAccount s account3 of
                                      (Some err, s1) \<Rightarrow> (Failed err, s1)
                                    | (None, s1) \<Rightarrow>
                                        (case SetValidator s1 validator1 of
                                           (Some err, s2) \<Rightarrow> (Failed err, s2)
                                         | (None, s2) \<Rightarrow>
                                             (case (if del_Amount delegation1 = 0
                                                    then DeleteDelegation s2 (tx_From tx)
                                                           (sd_Validator data)
                                                    else SetDelegation s2 delegation1) of
                                                (Some err, s3) \<Rightarrow> (Failed err, s3)
                                              | (None, s3) \<Rightarrow> (Ok, s3)))))))))"

definition executeCreateValidator :: "StateDB \<Rightarrow> Transaction \<Rightarrow> outcome \<times> StateDB" where
  "executeCreateValidator s tx =
     (case as_CreateValidatorData (tx_Data tx) of
        None \<Rightarrow> (Failed ErrJSON, s)
      | Some data \<Rightarrow>
          (case GetAccount s (tx_From tx) of
             Inl err \<Rightarrow> (Failed err, s)
           | Inr account \<Rightarrow>
               (case cv_SelfStake data of
                  None \<Rightarrow> (Panicked, s)
                | Some selfStake \<Rightarrow>
                    if acc_Balance account < selfStake
                    then (Failed ErrInsufficientBalanceForSelfStake, s)
                    else
                      let validator =
                            NewValidator (tx_From tx) (cv_PublicKey data) selfStake
                              (cv_Commission data);
                          account1 = snd (SubBalance account selfStake);
                          account2 = AddStake account1 selfStake;
                          account3 = account2\<lparr>acc_Nonce := acc_Nonce account2 + 1\<rparr>
                      in (case SetAccount s account3 of
                            (Some err, s1) \<Rightarrow> (Failed err, s1)
                          | (None, s1) \<Rightarrow>
                              (case SetValidator s1 validator of
                                 (Some err, s2) \<Rightarrow> (Failed err, s2)
                               | (None, s2) \<Rightarrow> (Ok, s2))))))"

definition ExecuteTransaction :: "StateDB \<Rightarrow> Transaction \<Rightarrow> outcome \<times> StateDB" where
  "ExecuteTransaction s tx =
     (if tx_Type tx = TxTypeTransfer then executeTransfer s tx
      else if tx_Type tx = TxTypeStake then executeStake s tx
      else if tx_Type tx = TxTypeUnstake then executeUnstake s tx
      else if tx_Type tx = TxTypeDelegate then executeDelegate s tx
      else if tx_Type tx = TxTypeUndelegate then executeUndelegate s tx
      else if tx_Type tx = TxTypeCreateValidator then executeCreateValidator s tx
      else (Failed ErrUnknownTransactionType, s))"

text \<open>
  The loop of \<^verbatim>\<open>ExecuteBlock\<close>: it returns at the first transaction that returns an
  error, and a panic ends it as well.
\<close>

fun executeAll :: "StateDB \<Rightarrow> Transaction list \<Rightarrow> outcome \<times> StateDB" where
  "executeAll s [] = (Ok, s)"
| "executeAll s (tx # txs) =
     (case ExecuteTransaction s tx of
        (Ok, s') \<Rightarrow> executeAll s' txs
      | (Failed err, s') \<Rightarrow> (Failed err, s')
      | (Panicked, s') \<Rightarrow> (Panicked, s'))"

definition ExecuteBlock :: "StateDB \<Rightarrow> Block \<Rightarrow> outcome \<times> StateDB" where
  "ExecuteBlock s block = executeAll s (blk_Transactions block)"

section \<open>The DPoS engine (pkg/consensus, DPoS)\<close>

text \<open>
  The registry \<^verbatim>\<open>validators\<close> maps an address to a pointer to a validator, and
  \<^verbatim>\<open>RegisterValidator\<close>, its only writer, stores each validator under its own address.
  A pointer to a registered validator is therefore modelled by that address: the
  registry is the store, and \<^verbatim>\<open>activeValidators\<close>, a slice of such pointers, is a list
  of addresses. The nested delegation map is a map of maps.
\<close>

record DPoS =
  dpos_validators :: "Address \<rightharpoonup> Validator"
  dpos_delegations :: "Address \<rightharpoonup> (Address \<rightharpoonup> Delegation)"
  dpos_activeValidators :: "Address list"
  dpos_currentEpoch :: uint64

definition NewDPoS :: DPoS where
  "NewDPoS =
     \<lparr>dpos_validators = Map.empty, dpos_delegations = Map.empty,
      dpos_activeValidators = [], dpos_currentEpoch = 0\<rparr>"

definition RegisterValidator :: "DPoS \<Rightarrow> Validator \<Rightarrow> outcome \<times> DPoS" where
  "RegisterValidator d validator =
     (if dpos_validators d (val_Address validator) \<noteq> None
      then (Failed ErrValidatorAlreadyRegistered, d)
      else if val_SelfStake validator < MinStakeWei then (Failed ErrInsufficientSelfStake, d)
      else (Ok,
            d\<lparr>dpos_validators := (dpos_validators d)(val_Address validator \<mapsto> validator)\<rparr>))"

definition Delegate :: "DPoS \<Rightarrow> Address \<Rightarrow> Address \<Rightarrow> int \<Rightarrow> outcome \<times> DPoS" where
  "Delegate d delegator validator amount =
     (case dpos_validators d validator of
        None \<Rightarrow> (Failed ErrValidatorNotFound, d)
      | Some val \<Rightarrow>
          let inner = (case dpos_delegations d delegator of
                         None \<Rightarrow> Map.empty
                       | Some m \<Rightarrow> m);
              delegation = (case inner validator of
                              None \<Rightarrow> NewDelegation delegator validator amount
                            | Some dl \<Rightarrow> dl\<lparr>del_Amount := del_Amount dl + amount\<rparr>);
              val1 = AddVotingPower val amount
          in (Ok,
              d\<lparr>dpos_delegations :=
                   (dpos_delegations d)(delegator \<mapsto> inner(validator \<mapsto> delegation)),
                 dpos_validators := (dpos_validators d)(validator \<mapsto> val1)\<rparr>))"

text \<open>
  \<^verbatim>\<open>Undelegate\<close> reads \<^verbatim>\<open>d.validators[validator]\<close> without testing for presence, after it
  has reduced the delegation in place: on a missing validator the method call on the
  nil pointer panics and the reduced delegation stays.
\<close>

definition Undelegate :: "DPoS \<Rightarrow> Address \<Rightarrow> Address \<Rightarrow> int \<Rightarrow> outcome \<times> DPoS" where
  "Undelegate d delegator validator amount =
     (case (case dpos_delegations d delegator of
              None \<Rightarrow> None
            | Some m \<Rightarrow> m validator) of
        None \<Rightarrow> (Failed ErrDelegationNotFound, d)
      | Some delegation \<Rightarrow>
          if del_Amount delegation < amount then (Failed ErrInsufficientDelegatedAmount, d)
          else
            let inner = (case dpos_delegations d delegator of
                           None \<Rightarrow> Map.empty
                         | Some m \<Rightarrow> m);
                delegation1 = delegation\<lparr>del_Amount := del_Amount delegation - amount\<rparr>;
                d1 = d\<lparr>dpos_delegations :=
                         (dpos_delegations d)(delegator \<mapsto> inner(validator \<mapsto> delegation1))\<rparr>
            in (case dpos_validators d1 validator of
                  None \<Rightarrow> (Panicked, d1)
                | Some val \<Rightarrow>
                    let d2 = d1\<lparr>dpos_validators :=
                                  (dpos_validators d1)(validator \<mapsto> SubVotingPower val amount)\<rparr>
                    in if del_Amount delegation1 = 0
                       then (Ok,
                             d2\<lparr>dpos_delegations :=
                                  (dpos_delegations d2)(delegator \<mapsto> inner(validator := None))\<rparr>)
                       else (Ok, d2)))"

text \<open>
  \<^verbatim>\<open>sort.Slice\<close> belongs to the Go library, not to the repository. It rearranges the
  slice so that no element is \<^verbatim>\<open>less\<close> than one before it, and it promises no
  stability. \<^verbatim>\<open>SelectValidators\<close> takes it as the argument \<open>sortSlice\<close>. For a slice of at
  most twelve elements the library runs the insertion sort below, which moves each
  element left while \<^verbatim>\<open>less(data[j], data[j-1])\<close> holds; the sorted prefix is kept
  reversed, so that its last element is at the head.
\<close>

fun bubbleLeft :: "('a \<Rightarrow> 'a \<Rightarrow> bool) \<Rightarrow> 'a \<Rightarrow> 'a list \<Rightarrow> 'a list" where
  "bubbleLeft lt x [] = [x]"
| "bubbleLeft lt x (y # rs) =
     (if lt x y then y # bubbleLeft lt x rs else x # y # rs)"

definition insertionSort_func :: "('a \<Rightarrow> 'a \<Rightarrow> bool) \<Rightarrow> 'a list \<Rightarrow> 'a list" where
  "insertionSort_func lt xs = rev (fold (bubbleLeft lt) xs [])"

definition votingPowerAt :: "DPoS \<Rightarrow> Address \<Rightarrow> int" where
  "votingPowerAt d a = (case dpos_validators d a of None \<Rightarrow> 0 | Some v \<Rightarrow> val_VotingPower v)"

definition eligibleAt :: "DPoS \<Rightarrow> Address \<Rightarrow> bool" where
  "eligibleAt d a = (case dpos_validators d a of None \<Rightarrow> False | Some v \<Rightarrow> CanProduceBlocks v)"

text \<open>
  \<^verbatim>\<open>SelectValidators\<close> ranges over the registry, a Go map, whose iteration order the
  language leaves unspecified. The order in which the loop meets the keys is the
  argument \<open>order\<close>; it lists every key of the registry once.
\<close>

definition iterationOrder :: "('k \<rightharpoonup> 'v) \<Rightarrow> 'k list \<Rightarrow> bool" where
  "iterationOrder m order \<longleftrightarrow> distinct order \<and> set order = dom m"

definition SelectValidators ::
  "((Address \<Rightarrow> Address \<Rightarrow> bool) \<Rightarrow> Address list \<Rightarrow> Address list)
     \<Rightarrow> Address list \<Rightarrow> DPoS \<Rightarrow> Address list \<times> DPoS" where
  "SelectValidators sortSlice order d =
     (let validators = filter (eligibleAt d) order;
          sorted = sortSlice (\<lambda>a b. votingPowerAt d a > votingPowerAt d b) validators;
          maxValidators = (if length sorted < MaxValidators then length sorted
                           else MaxValidators);
          active = take maxValidators sorted
      in (active, d\<lparr>dpos_activeValidators := active\<rparr>))"

definition GetBlockProducer :: "DPoS \<Rightarrow> uint64 \<Rightarrow> (error + Address) \<times> DPoS" where
  "GetBlockProducer d blockNumber =
     (if length (dpos_activeValidators d) = 0 then (Inl ErrNoActiveValidators, d)
      else
        let index = unat blockNumber mod length (dpos_activeValidators d)
        in (Inr (dpos_activeValidators d ! index), d))"

section \<open>The slasher (pkg/consensus/slashing.go)\<close>

type_synonym SlashingReason = int

definition SlashingReasonDoubleSign :: SlashingReason where "SlashingReasonDoubleSign = 0"
definition SlashingReasonDowntime :: SlashingReason where "SlashingReasonDowntime = 1"
definition SlashingReasonInvalidBlock :: SlashingReason where "SlashingReasonInvalidBlock = 2"

record SlashingEvent =
  ev_Validator :: Address
  ev_Reason :: SlashingReason
  ev_Amount :: int
  ev_BlockNum :: uint64

text \<open>
  The multiplier \<^verbatim>\<open>int64(slashPercentage*10000)\<close>: the double-precision products
  \<^verbatim>\<open>0.05*10000\<close>, \<^verbatim>\<open>0.01*10000\<close> and \<^verbatim>\<open>0.03*10000\<close> are exactly 500, 100 and 300.
  \<open>None\<close> is the \<^verbatim>\<open>default\<close> branch of the switch.
\<close>

definition slashMultiplier :: "SlashingReason \<Rightarrow> int option" where
  "slashMultiplier reason =
     (if reason = SlashingReasonDoubleSign then Some 500
      else if reason = SlashingReasonDowntime then Some 100
      else if reason = SlashingReasonInvalidBlock then Some 300
      else None)"

text \<open>
  The slasher holds a pointer to the shared DPoS engine and its own event log; the
  engine is passed and returned beside the log. \<^verbatim>\<open>big.Int.Div\<close> is Euclidean division,
  which for the positive divisor 10000 is \<open>div\<close>.
\<close>

definition SlashValidator ::
  "DPoS \<Rightarrow> SlashingEvent list \<Rightarrow> Address \<Rightarrow> SlashingReason \<Rightarrow> uint64
     \<Rightarrow> outcome \<times> DPoS \<times> SlashingEvent list" where
  "SlashValidator d events address reason blockNum =
     (case dpos_validators d address of
        None \<Rightarrow> (Failed ErrValidatorNotFound, d, events)
      | Some validator \<Rightarrow>
          (case slashMultiplier reason of
             None \<Rightarrow> (Failed ErrUnknownSlashingReason, d, events)
           | Some bp \<Rightarrow>
               let slashAmount = (val_VotingPower validator * bp) div 10000;
                   validator1 = SubVotingPower validator slashAmount;
                   selfStakeSlash = (val_SelfStake validator1 * bp) div 10000;
                   validator2 =
                     validator1\<lparr>val_SelfStake := val_SelfStake validator1 - selfStakeSlash\<rparr>;
                   event = \<lparr>ev_Validator = address, ev_Reason = reason,
                            ev_Amount = slashAmount, ev_BlockNum = blockNum\<rparr>;
                   events1 = events @ [event];
                   validator3 =
                     (if reason = SlashingReasonDoubleSign \<or> reason = SlashingReasonInvalidBlock
                      then validator2\<lparr>val_Jailed := True, val_Status := ValidatorStatusJailed\<rparr>
                      else validator2)
               in (Ok, d\<lparr>dpos_validators := (dpos_validators d)(address \<mapsto> validator3)\<rparr>,
                   events1)))"

section \<open>The staking manager (pkg/staking/staking.go)\<close>

record StakingManager =
  sm_unbondingQueue :: "Address \<rightharpoonup> UnbondingDelegation list"
  sm_minStakeAmount :: int
  sm_unbondingPeriod :: uint64

definition NewStakingManager :: StakingManager where
  "NewStakingManager =
     \<lparr>sm_unbondingQueue = Map.empty, sm_minStakeAmount = 10 * 10 ^ 18,
      sm_unbondingPeriod = UnbondingPeriod\<rparr>"

text \<open>\<^verbatim>\<open>sm.unbondingQueue[delegator]\<close>: a missing key reads as the nil slice.\<close>

definition GetUnbondingDelegations ::
  "StakingManager \<Rightarrow> Address \<Rightarrow> UnbondingDelegation list" where
  "GetUnbondingDelegations sm delegator =
     (case sm_unbondingQueue sm delegator of None \<Rightarrow> [] | Some us \<Rightarrow> us)"

text \<open>The sum \<^verbatim>\<open>currentBlock + sm.unbondingPeriod\<close> is a sum of \<^verbatim>\<open>uint64\<close>: it wraps.\<close>

definition Unstake ::
  "DPoS \<Rightarrow> StakingManager \<Rightarrow> Address \<Rightarrow> Address \<Rightarrow> int \<Rightarrow> uint64
     \<Rightarrow> outcome \<times> DPoS \<times> StakingManager" where
  "Unstake d sm delegator validator amount currentBlock =
     (case Undelegate d delegator validator amount of
        (Failed err, d1) \<Rightarrow> (Failed err, d1, sm)
      | (Panicked, d1) \<Rightarrow> (Panicked, d1, sm)
      | (Ok, d1) \<Rightarrow>
          let unbonding = \<lparr>ubd_Delegator = delegator, ubd_Validator = validator,
                           ubd_Amount = amount,
                           ubd_CompletionBlock = currentBlock + sm_unbondingPeriod sm\<rparr>;
              queued = GetUnbondingDelegations sm delegator
          in (Ok, d1,
              sm\<lparr>sm_unbondingQueue :=
                   (sm_unbondingQueue sm)(delegator \<mapsto> queued @ [unbonding])\<rparr>))"

text \<open>The inner loop of \<^verbatim>\<open>ProcessUnbonding\<close> over one delegator's entries.\<close>

fun scanUnbondings ::
  "uint64 \<Rightarrow> UnbondingDelegation list \<Rightarrow> UnbondingDelegation list \<times> UnbondingDelegation list
     \<Rightarrow> UnbondingDelegation list \<times> UnbondingDelegation list" where
  "scanUnbondings currentBlock [] (completed, remaining) = (completed, remaining)"
| "scanUnbondings currentBlock (unbonding # rest) (completed, remaining) =
     (if currentBlock \<ge> ubd_CompletionBlock unbonding
      then scanUnbondings currentBlock rest (completed @ [unbonding], remaining)
      else scanUnbondings currentBlock rest (completed, remaining @ [unbonding]))"

text \<open>
  The outer loop ranges over the queue, a Go map, in the order \<open>order\<close>; it rewrites or
  deletes only the entry of the key it is visiting.
\<close>

fun processQueue ::
  "uint64 \<Rightarrow> Address list
     \<Rightarrow> (Address \<rightharpoonup> UnbondingDelegation list) \<times> UnbondingDelegation list
     \<Rightarrow> (Address \<rightharpoonup> UnbondingDelegation list) \<times> UnbondingDelegation list" where
  "processQueue currentBlock [] (queue, completed) = (queue, completed)"
| "processQueue currentBlock (delegator # rest) (queue, completed) =
     (case queue delegator of
        None \<Rightarrow> processQueue currentBlock rest (queue, completed)
      | Some unbondings \<Rightarrow>
          (case scanUnbondings currentBlock unbondings (completed, []) of
             (completed1, remaining) \<Rightarrow>
               if length remaining > 0
               then processQueue currentBlock rest (queue(delegator \<mapsto> remaining), completed1)
               else processQueue currentBlock rest (queue(delegator := None), completed1)))"

definition ProcessUnbonding ::
  "Address list \<Rightarrow> StakingManager \<Rightarrow> uint64 \<Rightarrow> UnbondingDelegation list \<times> StakingManager" where
  "ProcessUnbonding order sm currentBlock =
     (case processQueue currentBlock order (sm_unbondingQueue sm, []) of
        (queue, completed) \<Rightarrow> (completed, sm\<lparr>sm_unbondingQueue := queue\<rparr>))"

section \<open>The mempool (pkg/mempool)\<close>

text \<open>
  \<^verbatim>\<open>txHeap\<close> is the slice that \<^verbatim>\<open>container/heap\<close> works on. \<^verbatim>\<open>Less\<close> puts the higher gas
  price first. \<^verbatim>\<open>up\<close> and \<^verbatim>\<open>down\<close> are the library's two loops; the library's test
  \<^verbatim>\<open>j1 < 0\<close>, which guards against overflow of the index, never holds for the natural
  numbers used here.
\<close>

type_synonym txHeap = "Transaction list"

definition Less :: "txHeap \<Rightarrow> nat \<Rightarrow> nat \<Rightarrow> bool" where
  "Less h i j \<longleftrightarrow> tx_GasPrice (h ! i) > tx_GasPrice (h ! j)"

definition Swap :: "txHeap \<Rightarrow> nat \<Rightarrow> nat \<Rightarrow> txHeap" where
  "Swap h i j = h[i := h ! j, j := h ! i]"

function up :: "txHeap \<Rightarrow> nat \<Rightarrow> txHeap" where
  "up h j =
     (let i = (j - 1) div 2
      in if i = j then h
         else if \<not> Less h j i then h
         else up (Swap h i j) i)"
  by pat_completeness auto
termination
  by (relation "measure (\<lambda>(h, j). j)") auto

function down :: "txHeap \<Rightarrow> nat \<Rightarrow> nat \<Rightarrow> txHeap" where
  "down h i n =
     (let j1 = 2 * i + 1
      in if j1 \<ge> n then h
         else
           let j = (if j1 + 1 < n \<and> Less h (j1 + 1) j1 then j1 + 1 else j1)
           in if \<not> Less h j i then h else down (Swap h i j) j n)"
  by pat_completeness auto
termination
  by (relation "measure (\<lambda>(h, i, n). n - i)") (auto split: if_splits)

declare up.simps [simp del] down.simps [simp del]

definition heapPush :: "txHeap \<Rightarrow> Transaction \<Rightarrow> txHeap" where
  "heapPush h x = (let h1 = h @ [x] in up h1 (length h1 - 1))"

definition heapPop :: "txHeap \<Rightarrow> Transaction \<times> txHeap" where
  "heapPop h =
     (let n = length h - 1;
          h1 = Swap h 0 n;
          h2 = down h1 0 n
      in (h2 ! n, take n h2))"

record PriorityQueue =
  pq_items :: txHeap

definition NewPriorityQueue :: PriorityQueue where
  "NewPriorityQueue = \<lparr>pq_items = []\<rparr>"

definition Push :: "PriorityQueue \<Rightarrow> Transaction \<Rightarrow> PriorityQueue" where
  "Push pq tx = pq\<lparr>pq_items := heapPush (pq_items pq) tx\<rparr>"

definition Pop :: "PriorityQueue \<Rightarrow> Transaction option \<times> PriorityQueue" where
  "Pop pq =
     (if length (pq_items pq) = 0 then (None, pq)
      else case heapPop (pq_items pq) of (tx, h) \<Rightarrow> (Some tx, pq\<lparr>pq_items := h\<rparr>))"

text \<open>
  The index \<^verbatim>\<open>transactions\<close> is a Go map from hash to transaction, kept as an
  association list with one pair per key, so that \<^verbatim>\<open>len\<close> is the length of the list.
\<close>

record Mempool =
  mp_transactions :: "(Hash \<times> Transaction) list"
  mp_queue :: PriorityQueue
  mp_maxSize :: int

definition NewMempool :: "int \<Rightarrow> Mempool" where
  "NewMempool maxSize =
     \<lparr>mp_transactions = [], mp_queue = NewPriorityQueue, mp_maxSize = maxSize\<rparr>"

definition AddTransaction :: "Mempool \<Rightarrow> Transaction \<Rightarrow> error option \<times> Mempool" where
  "AddTransaction m tx =
     (if map_of (mp_transactions m) (tx_Hash tx) \<noteq> None then (Some ErrAlreadyInMempool, m)
      else
        case Validate tx of
          Some err \<Rightarrow> (Some err, m)
        | None \<Rightarrow>
            let m1 =
                  (if int (length (mp_transactions m)) \<ge> mp_maxSize m
                   then (case Pop (mp_queue m) of
                           (None, q) \<Rightarrow> m\<lparr>mp_queue := q\<rparr>
                         | (Some lowest, q) \<Rightarrow>
                             m\<lparr>mp_transactions :=
                                  AList.delete (tx_Hash lowest) (mp_transactions m),
                               mp_queue := q\<rparr>)
                   else m)
            in (None,
                m1\<lparr>mp_transactions := AList.update (tx_Hash tx) tx (mp_transactions m1),
                   mp_queue := Push (mp_queue m1) tx\<rparr>))"

section \<open>Sequences of staking operations\<close>

text \<open>
  A client of the engine calls \<^verbatim>\<open>Delegate\<close>, \<^verbatim>\<open>Undelegate\<close> and \<^verbatim>\<open>SlashValidator\<close> in any
  order. A call that returns an error leaves the state as the call left it and the
  client goes on; a panic ends the sequence.
\<close>

datatype StakingOp =
    OpDelegate Address Address int
  | OpUndelegate Address Address int
  | OpSlashValidator Address SlashingReason uint64

fun applyOp ::
  "StakingOp \<Rightarrow> DPoS \<times> SlashingEvent list \<Rightarrow> outcome \<times> DPoS \<times> SlashingEvent list" where
  "applyOp (OpDelegate delegator validator amount) (d, events) =
     (case Delegate d delegator validator amount of (r, d1) \<Rightarrow> (r, d1, events))"
| "applyOp (OpUndelegate delegator validator amount) (d, events) =
     (case Undelegate d delegator validator amount of (r, d1) \<Rightarrow> (r, d1, events))"
| "applyOp (OpSlashValidator address reason blockNum) (d, events) =
     SlashValidator d events address reason blockNum"

fun applyOps ::
  "StakingOp list \<Rightarrow> DPoS \<times> SlashingEvent list \<Rightarrow> DPoS \<times> SlashingEvent list" where
  "applyOps [] st = st"
| "applyOps (operation # rest) st =
     (case applyOp operation st of
        (Panicked, st1) \<Rightarrow> st1
      | (Ok, st1) \<Rightarrow> applyOps rest st1
      | (Failed err, st1) \<Rightarrow> applyOps rest st1)"

section \<open>Vocabulary of the properties\<close>

text \<open>
  \<open>appliedInOrder s txs s'\<close>: starting in state \<open>s\<close>, each transaction of \<open>txs\<close>, taken
  from left to right, has been executed with success on the state that the one before
  it left, and the last one has left \<open>s'\<close>.
\<close>

inductive appliedInOrder :: "StateDB \<Rightarrow> Transaction list \<Rightarrow> StateDB \<Rightarrow> bool" where
  applied_none: "appliedInOrder s [] s"
| applied_next:
    "ExecuteTransaction s tx = (Ok, s1) \<Longrightarrow> appliedInOrder s1 txs s'
       \<Longrightarrow> appliedInOrder s (tx # txs) s'"

text \<open>
  What \<^verbatim>\<open>sort.Slice\<close> promises for the comparison \<open>lt\<close>: the result is a rearrangement of
  the slice in which no element is \<open>lt\<close> one before it.
\<close>

definition sortsBy ::
  "(('a \<Rightarrow> 'a \<Rightarrow> bool) \<Rightarrow> 'a list \<Rightarrow> 'a list) \<Rightarrow> ('a \<Rightarrow> 'a \<Rightarrow> bool) \<Rightarrow> bool" where
  "sortsBy sortSlice lt \<longleftrightarrow>
     (\<forall>xs. mset (sortSlice lt xs) = mset xs
            \<and> sorted_wrt (\<lambda>a b. \<not> lt b a) (sortSlice lt xs))"

text \<open>
  The entries of a delegator's queue whose completion height has been reached at block
  \<open>cur\<close>, and those still unbonding.
\<close>

definition completedAt :: "uint64 \<Rightarrow> UnbondingDelegation list \<Rightarrow> UnbondingDelegation list" where
  "completedAt cur us = filter (\<lambda>u. ubd_CompletionBlock u \<le> cur) us"

definition pendingAt :: "uint64 \<Rightarrow> UnbondingDelegation list \<Rightarrow> UnbondingDelegation list" where
  "pendingAt cur us = filter (\<lambda>u. \<not> ubd_CompletionBlock u \<le> cur) us"

text \<open>No registered validator has a negative voting power.\<close>

definition votingPowerNonneg :: "DPoS \<Rightarrow> bool" where
  "votingPowerNonneg d \<longleftrightarrow> (\<forall>a. 0 \<le> votingPowerAt d a)"

text \<open>The amount of a \<^verbatim>\<open>Delegate\<close> call is not negative.\<close>

fun nonnegDelegation :: "StakingOp \<Rightarrow> bool" where
  "nonnegDelegation (OpDelegate delegator validator amount) = (0 \<le> amount)"
| "nonnegDelegation (OpUndelegate delegator validator amount) = True"
| "nonnegDelegation (OpSlashValidator address reason blockNum) = True"

section \<open>Concrete inputs\<close>

definition exAccount :: Account where
  "exAccount =
     \<lparr>acc_Address = 1, acc_Balance = 100, acc_Nonce = 0, acc_Staked = 0, acc_Locked = 0\<rparr>"

text \<open>A store that holds account 1 only and whose writes all succeed.\<close>

definition exState :: StateDB where
  "exState =
     \<lparr>db_accounts = [1 \<mapsto> exAccount], db_validators = Map.empty,
      db_delegations = Map.empty, db_writeFaults = []\<rparr>"

definition noData :: TxData where
  "noData = \<lparr>as_StakeData = None, as_CreateValidatorData = None\<rparr>"

text \<open>A transfer of 10 from account 1, gas limit 2 at gas price 3: its cost is 16.\<close>

definition exTransfer :: "Address \<Rightarrow> Transaction" where
  "exTransfer recipient =
     \<lparr>tx_Hash = 7, tx_Type = TxTypeTransfer, tx_From = 1, tx_To = recipient, tx_Value = 10,
      tx_Data = noData, tx_Nonce = 0, tx_GasLimit = 2, tx_GasPrice = 3, tx_Signature = [1]\<rparr>"

definition exBlock :: Block where
  "exBlock =
     \<lparr>blk_Number = 1, blk_Validator = 9, blk_Transactions = [exTransfer 2, exTransfer 2]\<rparr>"

definition exStake :: Transaction where
  "exStake =
     \<lparr>tx_Hash = 8, tx_Type = TxTypeStake, tx_From = 1, tx_To = 0, tx_Value = 0,
      tx_Data = \<lparr>as_StakeData = Some \<lparr>sd_Validator = 0, sd_Amount = Some 10\<rparr>,
                 as_CreateValidatorData = None\<rparr>,
      tx_Nonce = 0, tx_GasLimit = 21000, tx_GasPrice = 1, tx_Signature = [1]\<rparr>"

definition exCreateValidator :: Transaction where
  "exCreateValidator =
     \<lparr>tx_Hash = 9, tx_Type = TxTypeCreateValidator, tx_From = 1, tx_To = 0, tx_Value = 0,
      tx_Data = \<lparr>as_StakeData = None,
                 as_CreateValidatorData =
                   Some \<lparr>cv_PublicKey = [], cv_Commission = 0, cv_SelfStake = Some 1\<rparr>\<rparr>,
      tx_Nonce = 0, tx_GasLimit = 21000, tx_GasPrice = 1, tx_Signature = [1]\<rparr>"

text \<open>Two registered validators, 1 and 2, each with the minimum stake.\<close>

definition exDPoS :: DPoS where
  "exDPoS =
     snd (RegisterValidator
            (snd (RegisterValidator NewDPoS (NewValidator 1 [] MinStakeWei 0)))
            (NewValidator 2 [] MinStakeWei 0))"

text \<open>A validator of voting power and self-stake 1000000.\<close>

definition exMillion :: DPoS where
  "exMillion = NewDPoS\<lparr>dpos_validators := [1 \<mapsto> NewValidator 1 [] 1000000 0]\<rparr>"

text \<open>Delegator 5 has delegated 50 to validator 1.\<close>

definition exDelegated :: DPoS where
  "exDelegated = snd (Delegate exDPoS 5 1 50)"

definition poolTx :: "Hash \<Rightarrow> int \<Rightarrow> Transaction" where
  "poolTx h price =
     \<lparr>tx_Hash = h, tx_Type = TxTypeTransfer, tx_From = 1, tx_To = 2, tx_Value = 0,
      tx_Data = noData, tx_Nonce = 0, tx_GasLimit = 21000, tx_GasPrice = price,
      tx_Signature = [1]\<rparr>"

text \<open>A mempool of capacity 2 that holds a transaction of gas price 1 and one of gas price 2.\<close>

definition fullPool :: Mempool where
  "fullPool =
     snd (AddTransaction (snd (AddTransaction (NewMempool 2) (poolTx 1 1))) (poolTx 2 2))"

section \<open>Properties of the executor\<close>

subsection \<open>What a failing transaction leaves\<close>

lemmas store_write_defs =
  SetAccount_def SetValidator_def SetDelegation_def DeleteDelegation_def nextWrite_def

text \<open>
  Every check of a transaction comes before its first write: a transaction that
  returns an error other than the store's, or that panics, has written nothing.
\<close>

lemma executeTransfer_check:
  "executeTransfer s tx = (r, s') \<Longrightarrow> r \<noteq> Ok \<Longrightarrow> r \<noteq> Failed ErrStorage \<Longrightarrow> s' = s"
  by (auto simp: executeTransfer_def store_write_defs Let_def
      split: sum.splits if_splits prod.splits option.splits list.splits)

lemma executeStake_check:
  "executeStake s tx = (r, s') \<Longrightarrow> r \<noteq> Ok \<Longrightarrow> r \<noteq> Failed ErrStorage \<Longrightarrow> s' = s"
  by (auto simp: executeStake_def store_write_defs Let_def
      split: sum.splits if_splits prod.splits option.splits list.splits)

lemma executeUnstake_check:
  "executeUnstake s tx = (r, s') \<Longrightarrow> r \<noteq> Ok \<Longrightarrow> r \<noteq> Failed ErrStorage \<Longrightarrow> s' = s"
  by (auto simp: executeUnstake_def store_write_defs Let_def
      split: sum.splits if_splits prod.splits option.splits list.splits)

lemma executeCreateValidator_check:
  "executeCreateValidator s tx = (r, s') \<Longrightarrow> r \<noteq> Ok \<Longrightarrow> r \<noteq> Failed ErrStorage \<Longrightarrow> s' = s"
  by (auto simp: executeCreateValidator_def store_write_defs Let_def
      split: sum.splits if_splits prod.splits option.splits list.splits)

lemma SetAccount_error: "SetAccount s a = (Some e, s1) \<Longrightarrow> e = ErrStorage"
  by (auto simp: store_write_defs split: list.splits if_splits)

lemma SetValidator_error: "SetValidator s v = (Some e, s1) \<Longrightarrow> e = ErrStorage"
  by (auto simp: store_write_defs split: list.splits if_splits)

lemma SetDelegation_error: "SetDelegation s dl = (Some e, s1) \<Longrightarrow> e = ErrStorage"
  by (auto simp: store_write_defs split: list.splits if_splits)

lemma DeleteDelegation_error: "DeleteDelegation s a b = (Some e, s1) \<Longrightarrow> e = ErrStorage"
  by (auto simp: store_write_defs split: list.splits if_splits)

lemmas write_errors =
  SetAccount_error SetValidator_error SetDelegation_error DeleteDelegation_error

lemma executeDelegate_check:
  "executeDelegate s tx = (r, s') \<Longrightarrow> r \<noteq> Ok \<Longrightarrow> r \<noteq> Failed ErrStorage \<Longrightarrow> s' = s"
  by (auto simp: executeDelegate_def Let_def dest: write_errors
      split: sum.splits if_splits prod.splits option.splits)

lemma executeUndelegate_check:
  "executeUndelegate s tx = (r, s') \<Longrightarrow> r \<noteq> Ok \<Longrightarrow> r \<noteq> Failed ErrStorage \<Longrightarrow> s' = s"
  by (auto simp: executeUndelegate_def Let_def dest: write_errors
      split: sum.splits if_splits prod.splits option.splits)

lemma ExecuteTransaction_check:
  "ExecuteTransaction s tx = (r, s') \<Longrightarrow> r \<noteq> Ok \<Longrightarrow> r \<noteq> Failed ErrStorage \<Longrightarrow> s' = s"
  unfolding ExecuteTransaction_def
  by (auto split: if_splits dest: executeTransfer_check executeStake_check executeUnstake_check
      executeDelegate_check executeUndelegate_check executeCreateValidator_check)

text \<open>
  The store's error comes after a write may have been made. Here the write of the
  sender succeeds and the write of the recipient fails: the transfer returns the error,
  the sender is debited and the recipient has received nothing.
\<close>

lemma executeTransfer_partial_write:
  "executeTransfer (exState\<lparr>db_writeFaults := [False, True]\<rparr>) (exTransfer 2) =
     (Failed ErrStorage,
      exState\<lparr>db_accounts := [1 \<mapsto> exAccount\<lparr>acc_Balance := 84, acc_Nonce := 1\<rparr>]\<rparr>)"
  by (simp add: executeTransfer_def exState_def exTransfer_def exAccount_def GetAccount_def
      GetCost_def SubBalance_def AddBalance_def NewAccount_def store_write_defs Let_def)

subsection \<open>Blocks\<close>

inductive_cases appliedInOrder_NilE: "appliedInOrder s [] s'"
inductive_cases appliedInOrder_ConsE: "appliedInOrder s (tx # txs) s'"

lemma executeAll_Ok: "executeAll s txs = (Ok, s') \<longleftrightarrow> appliedInOrder s txs s'"
proof (induction txs arbitrary: s)
  case Nil
  show ?case by (auto intro: applied_none elim: appliedInOrder_NilE)
next
  case (Cons tx txs)
  obtain r s1 where step: "ExecuteTransaction s tx = (r, s1)" by (cases "ExecuteTransaction s tx")
  show ?case
  proof
    assume "executeAll s (tx # txs) = (Ok, s')"
    with step have "r = Ok" "executeAll s1 txs = (Ok, s')"
      by (cases r; simp)+
    then show "appliedInOrder s (tx # txs) s'"
      using step Cons.IH by (auto intro: applied_next)
  next
    assume "appliedInOrder s (tx # txs) s'"
    then show "executeAll s (tx # txs) = (Ok, s')"
      using Cons.IH by (auto elim!: appliedInOrder_ConsE)
  qed
qed

lemma appliedInOrder_append:
  "appliedInOrder s pre s1 \<Longrightarrow> appliedInOrder s1 post s' \<Longrightarrow> appliedInOrder s (pre @ post) s'"
  by (induction rule: appliedInOrder.induct) (auto intro: appliedInOrder.intros)

lemma executeAll_after_prefix:
  "appliedInOrder s pre s1 \<Longrightarrow> executeAll s (pre @ rest) = executeAll s1 rest"
  by (induction rule: appliedInOrder.induct) auto

lemma executeAll_stops:
  assumes "executeAll s txs = (r, s')" and "r \<noteq> Ok"
  shows "\<exists>pre tx post s1. txs = pre @ tx # post \<and> appliedInOrder s pre s1
           \<and> ExecuteTransaction s1 tx = (r, s')"
  using assms
proof (induction txs arbitrary: s)
  case Nil
  then show ?case by simp
next
  case (Cons t ts)
  obtain r1 s1 where step: "ExecuteTransaction s t = (r1, s1)"
    by (cases "ExecuteTransaction s t")
  show ?case
  proof (cases "r1 = Ok")
    case True
    with step Cons.prems have "executeAll s1 ts = (r, s')" by simp
    from Cons.IH[OF this Cons.prems(2)] obtain pre tx post s2 where
      h: "ts = pre @ tx # post" "appliedInOrder s1 pre s2" "ExecuteTransaction s2 tx = (r, s')"
      by blast
    have "t # ts = (t # pre) @ tx # post" using h(1) by simp
    moreover have "appliedInOrder s (t # pre) s2"
      using step True h(2) by (auto intro: applied_next)
    ultimately show ?thesis using h(3) by blast
  next
    case False
    with step Cons.prems have "r1 = r" "s1 = s'" by (cases r1; simp)+
    with step have "t # ts = [] @ t # ts \<and> appliedInOrder s [] s
        \<and> ExecuteTransaction s t = (r, s')"
      by (simp add: applied_none)
    then show ?thesis by blast
  qed
qed

lemma executeAll_not_Ok:
  assumes "r \<noteq> Ok"
  shows "executeAll s txs = (r, s') \<longleftrightarrow>
           (\<exists>pre tx post s1. txs = pre @ tx # post \<and> appliedInOrder s pre s1
              \<and> ExecuteTransaction s1 tx = (r, s'))"
proof
  assume "executeAll s txs = (r, s')"
  then show "\<exists>pre tx post s1. txs = pre @ tx # post \<and> appliedInOrder s pre s1
              \<and> ExecuteTransaction s1 tx = (r, s')"
    using assms by (rule executeAll_stops)
next
  assume "\<exists>pre tx post s1. txs = pre @ tx # post \<and> appliedInOrder s pre s1
              \<and> ExecuteTransaction s1 tx = (r, s')"
  then obtain pre tx post s1 where
    h: "txs = pre @ tx # post" "appliedInOrder s pre s1" "ExecuteTransaction s1 tx = (r, s')"
    by blast
  have "executeAll s txs = executeAll s1 (tx # post)"
    using h(1) executeAll_after_prefix[OF h(2)] by simp
  also have "\<dots> = (r, s')" using h(3) assms by (cases r) simp_all
  finally show "executeAll s txs = (r, s')" .
qed

lemma exTransfer_first:
  "executeTransfer exState (exTransfer 2) =
     (Ok, exState\<lparr>db_accounts :=
        [1 \<mapsto> exAccount\<lparr>acc_Balance := 84, acc_Nonce := 1\<rparr>,
         2 \<mapsto> (NewAccount 2)\<lparr>acc_Balance := 10\<rparr>]\<rparr>)"
  by (simp add: executeTransfer_def exState_def exTransfer_def exAccount_def GetAccount_def
      GetCost_def SubBalance_def AddBalance_def NewAccount_def store_write_defs Let_def)

lemma exTransfer_second:
  "executeTransfer (snd (executeTransfer exState (exTransfer 2))) (exTransfer 2) =
     (Failed ErrInvalidNonce, snd (executeTransfer exState (exTransfer 2)))"
  by (simp add: exTransfer_first)
     (simp add: executeTransfer_def exState_def exTransfer_def exAccount_def GetAccount_def)

lemma exTransfer_type: "tx_Type (exTransfer a) = TxTypeTransfer"
  by (simp add: exTransfer_def)

lemma exBlock_first:
  "ExecuteTransaction exState (exTransfer 2) = (Ok, snd (executeTransfer exState (exTransfer 2)))"
  by (simp add: ExecuteTransaction_def exTransfer_type exTransfer_first)

lemma exBlock_second:
  "ExecuteTransaction (snd (executeTransfer exState (exTransfer 2))) (exTransfer 2) =
     (Failed ErrInvalidNonce, snd (executeTransfer exState (exTransfer 2)))"
  by (simp add: ExecuteTransaction_def exTransfer_type exTransfer_second)

lemma exBlock_result:
  "ExecuteBlock exState exBlock =
     (Failed ErrInvalidNonce, snd (executeTransfer exState (exTransfer 2)))"
  by (simp add: ExecuteBlock_def exBlock_def exBlock_first exBlock_second)

text \<open>
  C1, as amended. \<^verbatim>\<open>ExecuteBlock\<close> returns nil exactly when every transaction of the
  block, taken in list order, has been executed with success on the state that the one
  before it left. It returns the error \<open>e\<close> exactly when the block splits into
  transactions that have been so applied, a transaction that then returned \<open>e\<close>, and a
  rest that is not executed; the state after the call is the state that the failing
  transaction left, on top of the writes of the transactions before it. Nothing is
  rolled back. When \<open>e\<close> is not the store's write error the failing transaction has
  written nothing, and the state after the failed call is the state after the applied
  prefix.
\<close>

theorem ExecuteBlock_no_rollback:
  "(ExecuteBlock s b = (Ok, s') \<longleftrightarrow> appliedInOrder s (blk_Transactions b) s')
   \<and> (ExecuteBlock s b = (Failed e, s') \<longleftrightarrow>
        (\<exists>pre tx post s1. blk_Transactions b = pre @ tx # post \<and> appliedInOrder s pre s1
           \<and> ExecuteTransaction s1 tx = (Failed e, s')))
   \<and> (ExecuteBlock s b = (Failed e, s') \<and> e \<noteq> ErrStorage \<longrightarrow>
        (\<exists>pre tx post. blk_Transactions b = pre @ tx # post \<and> appliedInOrder s pre s'
           \<and> ExecuteTransaction s' tx = (Failed e, s')))"
proof -
  have a: "ExecuteBlock s b = (Ok, s') \<longleftrightarrow> appliedInOrder s (blk_Transactions b) s'"
    by (simp add: ExecuteBlock_def executeAll_Ok)
  have b: "ExecuteBlock s b = (Failed e, s') \<longleftrightarrow>
        (\<exists>pre tx post s1. blk_Transactions b = pre @ tx # post \<and> appliedInOrder s pre s1
           \<and> ExecuteTransaction s1 tx = (Failed e, s'))"
    unfolding ExecuteBlock_def by (rule executeAll_not_Ok) simp
  have c: "\<exists>pre tx post. blk_Transactions b = pre @ tx # post \<and> appliedInOrder s pre s'
           \<and> ExecuteTransaction s' tx = (Failed e, s')"
    if f: "ExecuteBlock s b = (Failed e, s')" and e: "e \<noteq> ErrStorage"
  proof -
    from f b obtain pre tx post s1 where
      h: "blk_Transactions b = pre @ tx # post" "appliedInOrder s pre s1"
         "ExecuteTransaction s1 tx = (Failed e, s')" by blast
    from ExecuteTransaction_check[OF h(3)] e have "s' = s1" by simp
    with h show ?thesis by blast
  qed
  show ?thesis using a b c by blast
qed

text \<open>
  The theorem at a block of two copies of one transfer from account 1 to account 2: the
  first is applied, the second fails on its nonce, and from these two steps the
  theorem gives the result of the block.
\<close>

theorem ExecuteBlock_no_rollback_witness:
  "appliedInOrder exState [exTransfer 2] (snd (executeTransfer exState (exTransfer 2)))
   \<and> ExecuteTransaction (snd (executeTransfer exState (exTransfer 2))) (exTransfer 2) =
       (Failed ErrInvalidNonce, snd (executeTransfer exState (exTransfer 2)))
   \<and> ErrInvalidNonce \<noteq> ErrStorage
   \<and> ExecuteBlock exState exBlock =
       (Failed ErrInvalidNonce, snd (executeTransfer exState (exTransfer 2)))
   \<and> (\<exists>pre tx post. blk_Transactions exBlock = pre @ tx # post
         \<and> appliedInOrder exState pre (snd (executeTransfer exState (exTransfer 2)))
         \<and> ExecuteTransaction (snd (executeTransfer exState (exTransfer 2))) tx =
             (Failed ErrInvalidNonce, snd (executeTransfer exState (exTransfer 2))))"
proof -
  let ?s1 = "snd (executeTransfer exState (exTransfer 2))"
  have chain: "appliedInOrder exState [exTransfer 2] ?s1"
    by (rule applied_next[OF exBlock_first applied_none])
  have parts: "blk_Transactions exBlock = [exTransfer 2] @ exTransfer 2 # []"
    by (simp add: exBlock_def)
  note inst = ExecuteBlock_no_rollback[of exState exBlock ?s1 ErrInvalidNonce]
  from inst parts chain exBlock_second
  have res: "ExecuteBlock exState exBlock = (Failed ErrInvalidNonce, ?s1)" by blast
  with inst have "\<exists>pre tx post. blk_Transactions exBlock = pre @ tx # post
         \<and> appliedInOrder exState pre ?s1
         \<and> ExecuteTransaction ?s1 tx = (Failed ErrInvalidNonce, ?s1)"
    by simp
  with chain exBlock_second res show ?thesis by simp
qed

text \<open>
  C1 as it is written fails: on that block the execution fails, and the state after the
  call is not the state before it, since the first transfer stays applied (account 2
  now exists and holds 10).
\<close>

theorem ExecuteBlock_partial_commit_counterexample:
  "fst (ExecuteBlock exState exBlock) = Failed ErrInvalidNonce
   \<and> snd (ExecuteBlock exState exBlock) \<noteq> exState
   \<and> db_accounts exState 2 = None
   \<and> db_accounts (snd (ExecuteBlock exState exBlock)) 2 = Some ((NewAccount 2)\<lparr>acc_Balance := 10\<rparr>)
   \<and> db_accounts exState 1 = Some exAccount
   \<and> db_accounts (snd (ExecuteBlock exState exBlock)) 1
        = Some (exAccount\<lparr>acc_Balance := 84, acc_Nonce := 1\<rparr>)"
proof -
  have a: "db_accounts exState 2 = None" "db_accounts exState 1 = Some exAccount"
    by (simp_all add: exState_def)
  have b: "db_accounts (snd (ExecuteBlock exState exBlock)) 2
      = Some ((NewAccount 2)\<lparr>acc_Balance := 10\<rparr>)"
    "db_accounts (snd (ExecuteBlock exState exBlock)) 1
        = Some (exAccount\<lparr>acc_Balance := 84, acc_Nonce := 1\<rparr>)"
    by (simp_all add: exBlock_result exTransfer_first)
  from a b have "snd (ExecuteBlock exState exBlock) \<noteq> exState" by auto
  then show ?thesis using a b by (simp add: exBlock_result)
qed

subsection \<open>Transfers\<close>

lemma sint_small:
  fixes w :: uint64
  assumes "w < 2 ^ 63"
  shows "sint w = int (unat w)"
proof -
  have "uint w < uint (2 ^ 63 :: uint64)" using assms by (simp only: word_less_def)
  then have u: "uint w < 2 ^ 63" by simp
  have "sint w = signed_take_bit 63 (uint w)" by (simp add: sint_uint)
  also have "\<dots> = uint w"
    by (rule signed_take_bit_int_eq_self) (use u in \<open>auto intro: order_trans[of _ 0]\<close>)
  finally show ?thesis by simp
qed

text \<open>Below \<open>2 ^ 63\<close> the gas limit is read as it is, and the cost is value plus gas.\<close>

lemma GetCost_small:
  "tx_GasLimit tx < 2 ^ 63 \<Longrightarrow>
     GetCost tx = tx_Value tx + int (unat (tx_GasLimit tx)) * tx_GasPrice tx"
  by (simp add: GetCost_def sint_small)

text \<open>From \<open>2 ^ 63\<close> on the conversion to \<^verbatim>\<open>int64\<close> makes the gas limit negative.\<close>

lemma GetCost_wraps: "GetCost ((exTransfer 2)\<lparr>tx_GasLimit := 2 ^ 64 - 1\<rparr>) = 10 - 3"
  by (simp add: GetCost_def exTransfer_def)

text \<open>
  A successful transfer between two different accounts, each stored under its own
  address, does what the contract of a transfer says.
\<close>

lemma executeTransfer_effect:
  assumes ok: "executeTransfer s tx = (Ok, s')"
    and diff: "tx_To tx \<noteq> tx_From tx"
    and sender: "db_accounts s (tx_From tx) = Some sender" "acc_Address sender = tx_From tx"
    and recipient: "\<And>r. db_accounts s (tx_To tx) = Some r \<Longrightarrow> acc_Address r = tx_To tx"
  shows "acc_Nonce sender = tx_Nonce tx"
    and "GetCost tx \<le> acc_Balance sender"
    and "db_accounts s' (tx_From tx) =
           Some (sender\<lparr>acc_Balance := acc_Balance sender - GetCost tx,
                        acc_Nonce := acc_Nonce sender + 1\<rparr>)"
    and "db_accounts s' (tx_To tx) =
           Some (AddBalance (case db_accounts s (tx_To tx) of
                               None \<Rightarrow> NewAccount (tx_To tx)
                             | Some r \<Rightarrow> r) (tx_Value tx))"
    and "\<And>a. a \<noteq> tx_From tx \<Longrightarrow> a \<noteq> tx_To tx \<Longrightarrow> db_accounts s' a = db_accounts s a"
    and "db_validators s' = db_validators s"
    and "db_delegations s' = db_delegations s"
  using ok diff sender recipient
  by (auto simp: executeTransfer_def GetAccount_def store_write_defs SubBalance_def
      AddBalance_def NewAccount_def Let_def split: option.splits if_splits list.splits)

text \<open>After such a transfer the same transaction fails on its nonce.\<close>

lemma executeTransfer_replay:
  assumes ok: "executeTransfer s tx = (Ok, s')"
    and diff: "tx_To tx \<noteq> tx_From tx"
    and sender: "db_accounts s (tx_From tx) = Some sender" "acc_Address sender = tx_From tx"
    and recipient: "\<And>r. db_accounts s (tx_To tx) = Some r \<Longrightarrow> acc_Address r = tx_To tx"
  shows "executeTransfer s' tx = (Failed ErrInvalidNonce, s')"
proof -
  note e = executeTransfer_effect[OF ok diff sender recipient]
  show ?thesis
    using e(1) e(3) by (simp add: executeTransfer_def GetAccount_def)
qed

text \<open>
  C3, at a transfer whose recipient is its sender. Account 1 holds 100 at nonce 0 and
  sends 10 to itself at a cost of 16; every write of the store succeeds. The recipient
  is read from the store after the sender has been debited in memory only, and is
  written last: the call succeeds, the balance goes up by the value, to 110, instead of
  down by the cost, and the nonce is still 0.
\<close>

theorem executeTransfer_self_transfer:
  "GetCost (exTransfer 1) = 16
   \<and> db_accounts exState 1 = Some exAccount
   \<and> acc_Balance exAccount = 100 \<and> acc_Nonce exAccount = 0
   \<and> executeTransfer exState (exTransfer 1) =
       (Ok, exState\<lparr>db_accounts := [1 \<mapsto> exAccount\<lparr>acc_Balance := 110\<rparr>]\<rparr>)"
  by (simp add: executeTransfer_def exState_def exTransfer_def exAccount_def GetAccount_def
      GetCost_def SubBalance_def AddBalance_def store_write_defs Let_def)

subsection \<open>Nonces\<close>

text \<open>
  Every successful transaction leaves the nonce of its sender one higher, the
  self-transfer apart.
\<close>

lemma executeStake_nonce:
  assumes "executeStake s tx = (Ok, s')"
    and "db_accounts s (tx_From tx) = Some sender" "acc_Address sender = tx_From tx"
  shows "\<exists>sender'. db_accounts s' (tx_From tx) = Some sender'
           \<and> acc_Nonce sender' = acc_Nonce sender + 1"
  using assms
  by (auto simp: executeStake_def GetAccount_def store_write_defs SubBalance_def AddStake_def
      Let_def split: option.splits if_splits list.splits)

lemma executeUnstake_nonce:
  assumes "executeUnstake s tx = (Ok, s')"
    and "db_accounts s (tx_From tx) = Some sender" "acc_Address sender = tx_From tx"
  shows "\<exists>sender'. db_accounts s' (tx_From tx) = Some sender'
           \<and> acc_Nonce sender' = acc_Nonce sender + 1"
  using assms
  by (auto simp: executeUnstake_def GetAccount_def store_write_defs SubStake_def
      Let_def split: option.splits if_splits list.splits)

lemma executeDelegate_nonce:
  assumes "executeDelegate s tx = (Ok, s')"
    and "db_accounts s (tx_From tx) = Some sender" "acc_Address sender = tx_From tx"
  shows "\<exists>sender'. db_accounts s' (tx_From tx) = Some sender'
           \<and> acc_Nonce sender' = acc_Nonce sender + 1"
  using assms
  by (auto simp: executeDelegate_def GetAccount_def store_write_defs SubBalance_def
      AddStake_def GetValidator_def GetDelegation_def
      Let_def split: option.splits if_splits list.splits)

lemma executeUndelegate_nonce:
  assumes "executeUndelegate s tx = (Ok, s')"
    and "db_accounts s (tx_From tx) = Some sender" "acc_Address sender = tx_From tx"
  shows "\<exists>sender'. db_accounts s' (tx_From tx) = Some sender'
           \<and> acc_Nonce sender' = acc_Nonce sender + 1"
  using assms
  by (auto simp: executeUndelegate_def GetAccount_def store_write_defs SubStake_def
      GetValidator_def GetDelegation_def
      Let_def split: option.splits if_splits list.splits)

lemma executeCreateValidator_nonce:
  assumes "executeCreateValidator s tx = (Ok, s')"
    and "db_accounts s (tx_From tx) = Some sender" "acc_Address sender = tx_From tx"
  shows "\<exists>sender'. db_accounts s' (tx_From tx) = Some sender'
           \<and> acc_Nonce sender' = acc_Nonce sender + 1"
  using assms
  by (auto simp: executeCreateValidator_def GetAccount_def store_write_defs SubBalance_def
      AddStake_def Let_def split: option.splits if_splits list.splits)

lemma ExecuteTransaction_nonce:
  assumes ok: "ExecuteTransaction s tx = (Ok, s')"
    and sender: "db_accounts s (tx_From tx) = Some sender" "acc_Address sender = tx_From tx"
    and diff: "tx_Type tx = TxTypeTransfer \<Longrightarrow> tx_To tx \<noteq> tx_From tx"
    and recipient: "\<And>r. db_accounts s (tx_To tx) = Some r \<Longrightarrow> acc_Address r = tx_To tx"
  shows "\<exists>sender'. db_accounts s' (tx_From tx) = Some sender'
           \<and> acc_Nonce sender' = acc_Nonce sender + 1"
proof (cases "tx_Type tx = TxTypeTransfer")
  case True
  with ok have t: "executeTransfer s tx = (Ok, s')" by (simp add: ExecuteTransaction_def)
  from executeTransfer_effect(3)[OF t diff[OF True] sender recipient]
  show ?thesis by simp
next
  case False
  with ok show ?thesis
    unfolding ExecuteTransaction_def
    by (auto split: if_splits
        dest: executeStake_nonce[OF _ sender] executeUnstake_nonce[OF _ sender]
          executeDelegate_nonce[OF _ sender] executeUndelegate_nonce[OF _ sender]
          executeCreateValidator_nonce[OF _ sender])
qed

text \<open>
  C4, at a stake transaction run twice. Account 1 holds 100 at nonce 0; the transaction
  stakes 10 and carries nonce 0; every write of the store succeeds. \<^verbatim>\<open>executeStake\<close>
  never compares the nonces, so the second run succeeds as well, takes the nonce from
  1 to 2 and moves another 10.
\<close>

theorem executeStake_replay_succeeds:
  "tx_Nonce exStake = 0
   \<and> ExecuteTransaction exState exStake =
     (Ok, exState\<lparr>db_accounts :=
        [1 \<mapsto> exAccount\<lparr>acc_Balance := 90, acc_Staked := 10, acc_Nonce := 1\<rparr>]\<rparr>)
   \<and> ExecuteTransaction (snd (ExecuteTransaction exState exStake)) exStake =
     (Ok, exState\<lparr>db_accounts :=
        [1 \<mapsto> exAccount\<lparr>acc_Balance := 80, acc_Staked := 20, acc_Nonce := 2\<rparr>]\<rparr>)"
proof -
  have a: "ExecuteTransaction exState exStake =
     (Ok, exState\<lparr>db_accounts :=
        [1 \<mapsto> exAccount\<lparr>acc_Balance := 90, acc_Staked := 10, acc_Nonce := 1\<rparr>]\<rparr>)"
    by (simp add: ExecuteTransaction_def executeStake_def exState_def exStake_def exAccount_def
        TxTypeTransfer_def TxTypeStake_def GetAccount_def SubBalance_def AddStake_def
        store_write_defs Let_def)
  have b: "ExecuteTransaction (exState\<lparr>db_accounts :=
        [1 \<mapsto> exAccount\<lparr>acc_Balance := 90, acc_Staked := 10, acc_Nonce := 1\<rparr>]\<rparr>) exStake =
     (Ok, exState\<lparr>db_accounts :=
        [1 \<mapsto> exAccount\<lparr>acc_Balance := 80, acc_Staked := 20, acc_Nonce := 2\<rparr>]\<rparr>)"
    by (simp add: ExecuteTransaction_def executeStake_def exState_def exStake_def exAccount_def
        TxTypeTransfer_def TxTypeStake_def GetAccount_def SubBalance_def AddStake_def
        store_write_defs Let_def)
  have c: "tx_Nonce exStake = 0" by (simp add: exStake_def)
  show ?thesis by (simp add: a b c)
qed

subsection \<open>Creating a validator\<close>

text \<open>
  What a successful create-validator transaction does: the balance covers the
  self-stake, the validator is stored under the sender's address with the self-stake as
  its voting power, and the self-stake moves from the balance to the staked amount.
\<close>

lemma executeCreateValidator_effect:
  assumes ok: "executeCreateValidator s tx = (Ok, s')"
    and sender: "db_accounts s (tx_From tx) = Some sender" "acc_Address sender = tx_From tx"
  shows "\<exists>dat selfStake.
           as_CreateValidatorData (tx_Data tx) = Some dat \<and> cv_SelfStake dat = Some selfStake
           \<and> selfStake \<le> acc_Balance sender
           \<and> db_validators s' (tx_From tx) =
               Some (NewValidator (tx_From tx) (cv_PublicKey dat) selfStake (cv_Commission dat))
           \<and> val_VotingPower (NewValidator (tx_From tx) (cv_PublicKey dat) selfStake
                 (cv_Commission dat)) = selfStake
           \<and> db_accounts s' (tx_From tx) =
               Some (sender\<lparr>acc_Balance := acc_Balance sender - selfStake,
                            acc_Staked := acc_Staked sender + selfStake,
                            acc_Nonce := acc_Nonce sender + 1\<rparr>)"
  using assms
  by (auto simp: executeCreateValidator_def GetAccount_def store_write_defs SubBalance_def
      AddStake_def NewValidator_def Let_def split: option.splits if_splits list.splits)

text \<open>
  C8, at a self-stake of 1. The network minimum is \<open>10 ^ 23\<close>. Account 1 holds 100;
  every write of the store succeeds. The transaction succeeds and stores a validator
  of voting power 1: \<^verbatim>\<open>executeCreateValidator\<close> compares the self-stake with the balance
  only.
\<close>

theorem executeCreateValidator_below_minimum:
  "1 < MinStakeWei
   \<and> executeCreateValidator exState exCreateValidator =
       (Ok, exState\<lparr>db_accounts :=
                 [1 \<mapsto> exAccount\<lparr>acc_Balance := 99, acc_Staked := 1, acc_Nonce := 1\<rparr>],
               db_validators := [1 \<mapsto> NewValidator 1 [] 1 0]\<rparr>)"
  by (simp add: MinStakeWei_def executeCreateValidator_def exState_def exCreateValidator_def
      exAccount_def GetAccount_def SubBalance_def AddStake_def store_write_defs
      NewValidator_def Let_def)

section \<open>Properties of the DPoS engine\<close>

subsection \<open>The sort\<close>

lemma bubbleLeft_mset: "mset (bubbleLeft lt x rs) = add_mset x (mset rs)"
  by (induction rs) auto

lemma bubbleLeft_set: "set (bubbleLeft lt x rs) = insert x (set rs)"
  by (induction rs) auto

lemma fold_bubbleLeft_mset: "mset (fold (bubbleLeft lt) xs acc) = mset xs + mset acc"
  by (induction xs arbitrary: acc) (auto simp: bubbleLeft_mset)

lemma insertionSort_func_mset: "mset (insertionSort_func lt xs) = mset xs"
  by (simp add: insertionSort_func_def fold_bubbleLeft_mset)

lemma bubbleLeft_ascending:
  fixes key :: "'a \<Rightarrow> int"
  shows "sorted_wrt (\<lambda>a b. key a \<le> key b) rs \<Longrightarrow>
    sorted_wrt (\<lambda>a b. key a \<le> key b) (bubbleLeft (\<lambda>a b. key a > key b) x rs)"
  by (induction rs) (auto simp: bubbleLeft_set)

lemma fold_bubbleLeft_ascending:
  fixes key :: "'a \<Rightarrow> int"
  shows "sorted_wrt (\<lambda>a b. key a \<le> key b) acc \<Longrightarrow>
    sorted_wrt (\<lambda>a b. key a \<le> key b) (fold (bubbleLeft (\<lambda>a b. key a > key b)) xs acc)"
  by (induction xs arbitrary: acc) (auto simp: bubbleLeft_ascending)

lemma insertionSort_func_descending:
  fixes key :: "'a \<Rightarrow> int"
  shows "sorted_wrt (\<lambda>a b. key a \<ge> key b) (insertionSort_func (\<lambda>a b. key a > key b) xs)"
proof -
  have "sorted_wrt (\<lambda>a b. key a \<le> key b) (fold (bubbleLeft (\<lambda>a b. key a > key b)) xs [])"
    by (rule fold_bubbleLeft_ascending) simp
  then show ?thesis
    by (simp add: insertionSort_func_def sorted_wrt_rev)
qed

text \<open>The library's insertion sort keeps the promise of \<^verbatim>\<open>sort.Slice\<close> for a comparison of keys.\<close>

lemma insertionSort_func_sortsBy:
  fixes key :: "'a \<Rightarrow> int"
  shows "sortsBy insertionSort_func (\<lambda>a b. key a > key b)"
  using insertionSort_func_descending[of key]
  by (simp add: sortsBy_def insertionSort_func_mset not_less)

text \<open>
  Two descending arrangements of the same elements are the same list when no two
  elements share a key.
\<close>

lemma descending_unique:
  fixes key :: "'a \<Rightarrow> int"
  assumes "mset xs = mset ys"
    and "sorted_wrt (\<lambda>a b. key a \<ge> key b) xs"
    and "sorted_wrt (\<lambda>a b. key a \<ge> key b) ys"
    and "inj_on key (set xs)"
  shows "xs = ys"
proof -
  have s: "set ys = set xs" using assms(1) by (metis set_mset_mset)
  have "sorted (rev (map key xs))" "sorted (rev (map key ys))"
    using assms(2,3) by (simp_all add: sorted_wrt_rev sorted_wrt_map flip: rev_map)
  moreover have "mset (rev (map key xs)) = mset (rev (map key ys))"
    using assms(1) by (metis mset_map mset_rev)
  ultimately have "rev (map key xs) = rev (map key ys)"
    by (metis properties_for_sort)
  then have "map key xs = map key ys" by simp
  then show ?thesis
    using assms(4) s by (metis inj_on_map_eq_map sup.idem)
qed

subsection \<open>Selecting the active set\<close>

lemma iterationOrder_mset:
  assumes "iterationOrder m order1" and "iterationOrder m order2"
  shows "mset order1 = mset order2"
proof -
  have "distinct order1" "distinct order2" "set order1 = set order2"
    using assms by (simp_all add: iterationOrder_def)
  then show ?thesis by (simp only: set_eq_iff_mset_eq_distinct)
qed

lemma SelectValidators_eq:
  "SelectValidators sortSlice order d =
     (take MaxValidators
        (sortSlice (\<lambda>a b. votingPowerAt d a > votingPowerAt d b)
           (filter (eligibleAt d) order)),
      d\<lparr>dpos_activeValidators :=
          take MaxValidators
            (sortSlice (\<lambda>a b. votingPowerAt d a > votingPowerAt d b)
               (filter (eligibleAt d) order))\<rparr>)"
  by (simp add: SelectValidators_def Let_def)

lemma exDPoS_eq:
  "exDPoS =
     \<lparr>dpos_validators =
        [1 \<mapsto> NewValidator 1 [] MinStakeWei 0, 2 \<mapsto> NewValidator 2 [] MinStakeWei 0],
      dpos_delegations = Map.empty, dpos_activeValidators = [], dpos_currentEpoch = 0\<rparr>"
  by (simp add: exDPoS_def RegisterValidator_def NewDPoS_def NewValidator_def)

lemma exDelegated_eq:
  "exDelegated =
     \<lparr>dpos_validators =
        [1 \<mapsto> (NewValidator 1 [] MinStakeWei 0)\<lparr>val_VotingPower := MinStakeWei + 50\<rparr>,
         2 \<mapsto> NewValidator 2 [] MinStakeWei 0],
      dpos_delegations = [5 \<mapsto> [1 \<mapsto> NewDelegation 5 1 50]],
      dpos_activeValidators = [], dpos_currentEpoch = 0\<rparr>"
  by (auto simp: exDelegated_def exDPoS_eq Delegate_def Let_def AddVotingPower_def
      NewValidator_def fun_eq_iff)

lemma exDPoS_order:
  "iterationOrder (dpos_validators exDPoS) [1, 2]"
  "iterationOrder (dpos_validators exDPoS) [2, 1]"
  by (auto simp: iterationOrder_def exDPoS_eq)

lemma exDelegated_order:
  "iterationOrder (dpos_validators exDelegated) [1, 2]"
  "iterationOrder (dpos_validators exDelegated) [2, 1]"
  by (auto simp: iterationOrder_def exDelegated_eq)

lemma exDPoS_votingPower:
  "votingPowerAt exDPoS 1 = MinStakeWei" "votingPowerAt exDPoS 2 = MinStakeWei"
  "eligibleAt exDPoS 1" "eligibleAt exDPoS 2"
  by (simp_all add: votingPowerAt_def eligibleAt_def exDPoS_eq NewValidator_def
      CanProduceBlocks_def IsActive_def)

lemma exDelegated_votingPower:
  "votingPowerAt exDelegated 1 = MinStakeWei + 50"
  "votingPowerAt exDelegated 2 = MinStakeWei"
  "eligibleAt exDelegated 1" "eligibleAt exDelegated 2"
  by (simp_all add: votingPowerAt_def eligibleAt_def exDelegated_eq NewValidator_def
      CanProduceBlocks_def IsActive_def)

text \<open>
  C2, as amended. \<^verbatim>\<open>SelectValidators\<close> keeps the validators that can produce blocks,
  arranges them by voting power, highest first, and takes the first \<open>MaxValidators\<close>
  of them as the new active set. Two engines with the same registry return the same
  ordered active set, in whatever order their maps are iterated and whatever sort
  keeps the promise of \<^verbatim>\<open>sort.Slice\<close>, provided no two eligible validators have the
  same voting power. The comparison looks at the voting power only: a tie is not
  broken by address.
\<close>

theorem SelectValidators_deterministic_without_ties:
  assumes s1: "sortsBy sortSlice1 (\<lambda>a b. votingPowerAt d1 a > votingPowerAt d1 b)"
    and s2: "sortsBy sortSlice2 (\<lambda>a b. votingPowerAt d1 a > votingPowerAt d1 b)"
    and o1: "iterationOrder (dpos_validators d1) order1"
    and o2: "iterationOrder (dpos_validators d2) order2"
    and same: "dpos_validators d1 = dpos_validators d2"
    and noties: "distinct (map (votingPowerAt d1) (filter (eligibleAt d1) order1))"
  shows "fst (SelectValidators sortSlice1 order1 d1) = fst (SelectValidators sortSlice2 order2 d2)
    \<and> sorted_wrt (\<lambda>a b. votingPowerAt d1 a \<ge> votingPowerAt d1 b)
         (fst (SelectValidators sortSlice1 order1 d1))
    \<and> (\<exists>sorted. mset sorted = mset (filter (eligibleAt d1) order1)
          \<and> sorted_wrt (\<lambda>a b. votingPowerAt d1 a \<ge> votingPowerAt d1 b) sorted
          \<and> fst (SelectValidators sortSlice1 order1 d1) = take MaxValidators sorted)
    \<and> dpos_activeValidators (snd (SelectValidators sortSlice1 order1 d1))
         = fst (SelectValidators sortSlice1 order1 d1)"
proof -
  let ?key = "votingPowerAt d1"
  let ?lt = "\<lambda>a b. ?key a > ?key b"
  let ?xs = "filter (eligibleAt d1) order1"
  let ?ys = "filter (eligibleAt d1) order2"
  have vp: "votingPowerAt d2 = votingPowerAt d1" and el: "eligibleAt d2 = eligibleAt d1"
    using same by (simp_all add: fun_eq_iff votingPowerAt_def eligibleAt_def)
  have c1: "mset (sortSlice1 ?lt zs) = mset zs"
    "sorted_wrt (\<lambda>a b. ?key a \<ge> ?key b) (sortSlice1 ?lt zs)" for zs
    using s1 by (simp_all add: sortsBy_def not_less)
  have c2: "mset (sortSlice2 ?lt zs) = mset zs"
    "sorted_wrt (\<lambda>a b. ?key a \<ge> ?key b) (sortSlice2 ?lt zs)" for zs
    using s2 by (simp_all add: sortsBy_def not_less)
  have "iterationOrder (dpos_validators d1) order2" using o2 by (simp only: same)
  then have "mset order1 = mset order2" by (rule iterationOrder_mset[OF o1])
  then have m: "mset ?xs = mset ?ys" by simp
  have "set (sortSlice1 ?lt ?xs) = set ?xs" by (metis c1(1) set_mset_mset)
  moreover have "inj_on ?key (set ?xs)" using noties by (simp only: distinct_map)
  ultimately have inj: "inj_on ?key (set (sortSlice1 ?lt ?xs))" by simp
  have "mset (sortSlice1 ?lt ?xs) = mset (sortSlice2 ?lt ?ys)" by (simp only: c1(1) c2(1) m)
  then have "sortSlice1 ?lt ?xs = sortSlice2 ?lt ?ys"
    using c1(2) c2(2) inj by (rule descending_unique)
  then have a: "fst (SelectValidators sortSlice1 order1 d1)
      = fst (SelectValidators sortSlice2 order2 d2)"
    by (simp add: SelectValidators_eq vp el)
  have b: "sorted_wrt (\<lambda>a b. ?key a \<ge> ?key b) (fst (SelectValidators sortSlice1 order1 d1))"
    by (simp add: SelectValidators_eq sorted_wrt_take c1(2))
  have "mset (sortSlice1 ?lt ?xs) = mset ?xs
          \<and> sorted_wrt (\<lambda>a b. ?key a \<ge> ?key b) (sortSlice1 ?lt ?xs)
          \<and> fst (SelectValidators sortSlice1 order1 d1) = take MaxValidators (sortSlice1 ?lt ?xs)"
    by (simp add: SelectValidators_eq c1)
  then have c: "\<exists>sorted. mset sorted = mset ?xs
          \<and> sorted_wrt (\<lambda>a b. ?key a \<ge> ?key b) sorted
          \<and> fst (SelectValidators sortSlice1 order1 d1) = take MaxValidators sorted"
    by blast
  have d: "dpos_activeValidators (snd (SelectValidators sortSlice1 order1 d1))
         = fst (SelectValidators sortSlice1 order1 d1)"
    by (simp add: SelectValidators_eq)
  show ?thesis using a b c d by blast
qed

text \<open>
  The theorem at the registry where validator 1 has received a delegation of 50 and
  validator 2 has none, with the library's insertion sort: met as 1, 2 or as 2, 1, the
  active set is 1, 2.
\<close>

theorem SelectValidators_deterministic_without_ties_witness:
  "sortsBy insertionSort_func (\<lambda>a b. votingPowerAt exDelegated a > votingPowerAt exDelegated b)
   \<and> iterationOrder (dpos_validators exDelegated) [1, 2]
   \<and> iterationOrder (dpos_validators exDelegated) [2, 1]
   \<and> distinct (map (votingPowerAt exDelegated) (filter (eligibleAt exDelegated) [1, 2]))
   \<and> fst (SelectValidators insertionSort_func [2, 1] exDelegated) = [1, 2]
   \<and> fst (SelectValidators insertionSort_func [1, 2] exDelegated)
       = fst (SelectValidators insertionSort_func [2, 1] exDelegated)"
proof -
  have s: "sortsBy insertionSort_func
      (\<lambda>a b. votingPowerAt exDelegated a > votingPowerAt exDelegated b)"
    by (rule insertionSort_func_sortsBy)
  have d: "distinct (map (votingPowerAt exDelegated) (filter (eligibleAt exDelegated) [1, 2]))"
    by (simp add: exDelegated_votingPower)
  have r: "fst (SelectValidators insertionSort_func [2, 1] exDelegated) = [1, 2]"
    by (simp add: SelectValidators_eq exDelegated_votingPower insertionSort_func_def
        MaxValidators_def)
  from SelectValidators_deterministic_without_ties
         [OF s s exDelegated_order(1) exDelegated_order(2) refl d]
  have "fst (SelectValidators insertionSort_func [1, 2] exDelegated)
      = fst (SelectValidators insertionSort_func [2, 1] exDelegated)"
    by blast
  then show ?thesis using s d r exDelegated_order by simp
qed

text \<open>
  C2 as it is written fails: validators 1 and 2 are registered with the same voting
  power, and the sort is the library's insertion sort. The same registry gives the
  active set 1, 2 when the map is met as 1, 2 and the active set 2, 1 when it is met as
  2, 1; in the second the tie is not in the order of the addresses.
\<close>

theorem SelectValidators_tie_counterexample:
  "iterationOrder (dpos_validators exDPoS) [1, 2]
   \<and> iterationOrder (dpos_validators exDPoS) [2, 1]
   \<and> votingPowerAt exDPoS 1 = votingPowerAt exDPoS 2
   \<and> fst (SelectValidators insertionSort_func [1, 2] exDPoS) = [1, 2]
   \<and> fst (SelectValidators insertionSort_func [2, 1] exDPoS) = [2, 1]"
  using exDPoS_order
  by (simp add: SelectValidators_eq exDPoS_votingPower insertionSort_func_def MaxValidators_def)

subsection \<open>The block producer\<close>

text \<open>
  C6. \<^verbatim>\<open>GetBlockProducer\<close> on a non-empty active set returns the entry at index
  \<open>h mod len\<close>, an index inside the set, and no error; on an empty set it returns the
  error "no active validators"; it leaves the engine, and so the active set, as it
  was; and its result depends on the engine through the active set only.
\<close>

theorem GetBlockProducer_round_robin:
  "(dpos_activeValidators d \<noteq> [] \<longrightarrow>
      unat h mod length (dpos_activeValidators d) < length (dpos_activeValidators d) \<and>
      GetBlockProducer d h =
        (Inr (dpos_activeValidators d ! (unat h mod length (dpos_activeValidators d))), d))
   \<and> (dpos_activeValidators d = [] \<longrightarrow> GetBlockProducer d h = (Inl ErrNoActiveValidators, d))
   \<and> snd (GetBlockProducer d h) = d
   \<and> (dpos_activeValidators d = dpos_activeValidators d' \<longrightarrow>
        fst (GetBlockProducer d h) = fst (GetBlockProducer d' h))"
  by (simp add: GetBlockProducer_def Let_def)

text \<open>
  The theorem at the active set 1, 2 and height 7, where the producer is validator 2,
  and at the empty active set of a new engine.
\<close>

theorem GetBlockProducer_round_robin_witness:
  "dpos_activeValidators (snd (SelectValidators insertionSort_func [1, 2] exDelegated)) = [1, 2]
   \<and> GetBlockProducer (snd (SelectValidators insertionSort_func [1, 2] exDelegated)) 7 =
       (Inr 2, snd (SelectValidators insertionSort_func [1, 2] exDelegated))
   \<and> dpos_activeValidators NewDPoS = []
   \<and> GetBlockProducer NewDPoS 7 = (Inl ErrNoActiveValidators, NewDPoS)"
proof -
  let ?d = "snd (SelectValidators insertionSort_func [1, 2] exDelegated)"
  have a: "dpos_activeValidators ?d = [1, 2]"
    by (simp add: SelectValidators_eq exDelegated_votingPower insertionSort_func_def
        MaxValidators_def)
  have b: "dpos_activeValidators NewDPoS = []" by (simp add: NewDPoS_def)
  have "(7::nat) mod Suc (Suc 0) = Suc 0"
    by (simp add: numeral_2_eq_2[symmetric] del: One_nat_def)
  then have c: "[1, 2 :: Address] ! (7 mod Suc (Suc 0)) = 2"
    by (simp only: nth_Cons_Suc nth_Cons_0)
  have u: "unat (7 :: uint64) = 7" by simp
  have l: "length [1, 2 :: Address] = Suc (Suc 0)" by simp
  from GetBlockProducer_round_robin [of ?d 7 ?d] a
  have "GetBlockProducer ?d 7 = (Inr ([1, 2] ! (unat (7 :: uint64) mod length [1, 2 :: Address])), ?d)"
    by simp
  then have p: "GetBlockProducer ?d 7 = (Inr 2, ?d)"
    by (simp only: u l c)
  from GetBlockProducer_round_robin [of NewDPoS 7 NewDPoS] b
  have q: "GetBlockProducer NewDPoS 7 = (Inl ErrNoActiveValidators, NewDPoS)"
    by simp
  show ?thesis using a b p q by simp
qed

section \<open>Properties of the slasher\<close>

text \<open>
  C7. For a registered validator \<open>v\<close> and one of the three reasons, at 5 percent for
  a double signature, 1 percent for downtime and 3 percent for an invalid block,
  \<^verbatim>\<open>SlashValidator\<close> returns nil, and
  \<^item> the penalty is the percentage of the voting power in whole units,
    \<open>voting power * percent div 100\<close>, which is the percentage itself whenever that is a
    whole number and otherwise the whole number below it;
  \<^item> the voting power goes down by the penalty (through \<^verbatim>\<open>SubVotingPower\<close>, so never
    below zero), and the self-stake goes down by the same percentage of the self-stake;
  \<^item> one event is added to the log, with the validator, the reason, the penalty as its
    amount, and the height.
\<close>

theorem SlashValidator_percentage:
  assumes v: "dpos_validators d address = Some v"
    and r: "(reason = SlashingReasonDoubleSign \<and> percent = 5) \<or>
            (reason = SlashingReasonDowntime \<and> percent = 1) \<or>
            (reason = SlashingReasonInvalidBlock \<and> percent = 3)"
  shows "\<exists>v'. SlashValidator d events address reason blockNum =
          (Ok, d\<lparr>dpos_validators := (dpos_validators d)(address \<mapsto> v')\<rparr>,
           events @ [\<lparr>ev_Validator = address, ev_Reason = reason,
                      ev_Amount = (val_VotingPower v * percent) div 100,
                      ev_BlockNum = blockNum\<rparr>])
        \<and> val_VotingPower v' = max 0 (val_VotingPower v - (val_VotingPower v * percent) div 100)
        \<and> (0 \<le> val_VotingPower v \<longrightarrow>
             val_VotingPower v' = val_VotingPower v - (val_VotingPower v * percent) div 100)
        \<and> val_SelfStake v' = val_SelfStake v - (val_SelfStake v * percent) div 100
        \<and> (100 dvd val_VotingPower v * percent \<longrightarrow>
             100 * ((val_VotingPower v * percent) div 100) = val_VotingPower v * percent)
        \<and> 100 * ((val_VotingPower v * percent) div 100) \<le> val_VotingPower v * percent
        \<and> val_VotingPower v * percent < 100 * ((val_VotingPower v * percent) div 100) + 100"
proof -
  have bp: "slashMultiplier reason = Some (percent * 100)"
    using r by (auto simp: slashMultiplier_def SlashingReasonDoubleSign_def
        SlashingReasonDowntime_def SlashingReasonInvalidBlock_def)
  have q: "(x * (percent * 100)) div 10000 = (x * percent) div 100" for x :: int
  proof -
    have "x * (percent * 100) = (x * percent) * 100" by (simp only: mult.assoc)
    moreover have "(10000 :: int) = 100 * 100" by simp
    moreover have "((x * percent) * 100) div (100 * 100) = (x * percent) div 100"
      by (rule div_mult_mult2) simp
    ultimately show ?thesis by (simp only:)
  qed
  have le: "(val_VotingPower v * percent) div 100 \<le> val_VotingPower v"
    if "0 \<le> val_VotingPower v"
    using r that by auto
  have m: "val_VotingPower (SubVotingPower v a) = max 0 (val_VotingPower v - a)" for a
    by (simp add: SubVotingPower_def Let_def max_def)
  have ss: "val_SelfStake (SubVotingPower v a) = val_SelfStake v" for a
    by (simp add: SubVotingPower_def Let_def)
  define amount where "amount = (val_VotingPower v * percent) div 100"
  define v2 where "v2 = (SubVotingPower v amount)
      \<lparr>val_SelfStake := val_SelfStake v - (val_SelfStake v * percent) div 100\<rparr>"
  define v3 where "v3 =
      (if reason = SlashingReasonDoubleSign \<or> reason = SlashingReasonInvalidBlock
       then v2\<lparr>val_Jailed := True, val_Status := ValidatorStatusJailed\<rparr> else v2)"
  have run: "SlashValidator d events address reason blockNum =
          (Ok, d\<lparr>dpos_validators := (dpos_validators d)(address \<mapsto> v3)\<rparr>,
           events @ [\<lparr>ev_Validator = address, ev_Reason = reason,
                      ev_Amount = amount, ev_BlockNum = blockNum\<rparr>])"
    by (simp add: SlashValidator_def v bp q Let_def ss v3_def v2_def amount_def)
  have p3: "val_VotingPower v3 = max 0 (val_VotingPower v - amount)"
    by (simp add: v3_def v2_def m)
  have s3: "val_SelfStake v3 = val_SelfStake v - (val_SelfStake v * percent) div 100"
    by (simp add: v3_def v2_def)
  have nn: "val_VotingPower v3 = val_VotingPower v - amount" if "0 \<le> val_VotingPower v"
    using le[OF that] p3 by (simp add: amount_def)
  have ex: "100 * amount = val_VotingPower v * percent" if "100 dvd val_VotingPower v * percent"
    using that by (simp add: amount_def)
  have lo: "100 * amount \<le> val_VotingPower v * percent"
    unfolding amount_def by (simp add: mult.commute[of 100])
  have hi: "val_VotingPower v * percent < 100 * amount + 100"
  proof -
    have "val_VotingPower v * percent
        = 100 * amount + (val_VotingPower v * percent) mod 100"
      unfolding amount_def by simp
    moreover have "(val_VotingPower v * percent) mod 100 < 100" by simp
    ultimately show ?thesis by linarith
  qed
  from run p3 s3 nn ex lo hi show ?thesis
    unfolding amount_def by blast
qed

lemma exMillion_validator:
  "dpos_validators exMillion 1 = Some (NewValidator 1 [] 1000000 0)"
  by (simp add: exMillion_def NewDPoS_def)

text \<open>
  The theorem at a validator of voting power 1000000 slashed for downtime at height
  42: the penalty is 10000 and the voting power becomes 990000.
\<close>

theorem SlashValidator_percentage_witness:
  "dpos_validators exMillion 1 = Some (NewValidator 1 [] 1000000 0)
   \<and> val_VotingPower (NewValidator 1 [] 1000000 0) = 1000000
   \<and> (\<exists>v'. SlashValidator exMillion [] 1 SlashingReasonDowntime 42 =
          (Ok, exMillion\<lparr>dpos_validators := (dpos_validators exMillion)(1 \<mapsto> v')\<rparr>,
           [\<lparr>ev_Validator = 1, ev_Reason = SlashingReasonDowntime, ev_Amount = 10000,
             ev_BlockNum = 42\<rparr>])
        \<and> val_VotingPower v' = 1000000 - 10000
        \<and> val_SelfStake v' = 990000)"
proof -
  have p: "val_VotingPower (NewValidator 1 [] 1000000 0) = 1000000"
    "val_SelfStake (NewValidator 1 [] 1000000 0) = 1000000"
    by (simp_all add: NewValidator_def)
  from SlashValidator_percentage
         [OF exMillion_validator, of SlashingReasonDowntime 1 "[]" 42]
  obtain v' where
    h: "SlashValidator exMillion [] 1 SlashingReasonDowntime 42 =
          (Ok, exMillion\<lparr>dpos_validators := (dpos_validators exMillion)(1 \<mapsto> v')\<rparr>,
           [\<lparr>ev_Validator = 1, ev_Reason = SlashingReasonDowntime, ev_Amount = 10000,
             ev_BlockNum = 42\<rparr>])"
       "val_VotingPower v' = 1000000 - 10000" "val_SelfStake v' = 990000"
    by (auto simp: p)
  then show ?thesis using exMillion_validator p by blast
qed

subsection \<open>The sign of the voting power\<close>

lemma SubVotingPower_nonneg: "0 \<le> val_VotingPower (SubVotingPower v amount)"
  by (simp add: SubVotingPower_def Let_def)

lemma Delegate_nonneg:
  "votingPowerNonneg d \<Longrightarrow> 0 \<le> amount \<Longrightarrow> votingPowerNonneg (snd (Delegate d a b amount))"
  unfolding votingPowerNonneg_def votingPowerAt_def
  by (auto simp: Delegate_def Let_def AddVotingPower_def split: option.splits
      dest!: spec[where x = b])

lemma Undelegate_nonneg:
  "votingPowerNonneg d \<Longrightarrow> votingPowerNonneg (snd (Undelegate d a b amount))"
  unfolding votingPowerNonneg_def votingPowerAt_def
  by (auto simp: Undelegate_def Let_def SubVotingPower_nonneg split: option.splits)

lemma SlashValidator_nonneg:
  "votingPowerNonneg d \<Longrightarrow> votingPowerNonneg (fst (snd (SlashValidator d ev a r h)))"
  unfolding votingPowerNonneg_def votingPowerAt_def
  by (auto simp: SlashValidator_def Let_def SubVotingPower_nonneg split: option.splits)

lemma applyOp_nonneg:
  assumes "votingPowerNonneg (fst st)" and "nonnegDelegation operation"
  shows "votingPowerNonneg (fst (snd (applyOp operation st)))"
proof (cases st)
  case (Pair d events)
  show ?thesis
  proof (cases operation)
    case (OpDelegate a b n)
    then show ?thesis
      using assms Pair Delegate_nonneg[of d n a b] by (auto split: prod.splits)
  next
    case (OpUndelegate a b n)
    then show ?thesis
      using assms Pair Undelegate_nonneg[of d a b n] by (auto split: prod.splits)
  next
    case (OpSlashValidator a r h)
    then show ?thesis
      using assms Pair SlashValidator_nonneg[of d events a r h] by simp
  qed
qed

lemma applyOps_nonneg:
  "votingPowerNonneg (fst st) \<Longrightarrow> list_all nonnegDelegation ops
     \<Longrightarrow> votingPowerNonneg (fst (applyOps ops st))"
proof (induction ops arbitrary: st)
  case Nil
  then show ?case by simp
next
  case (Cons operation rest)
  obtain r st1 where step: "applyOp operation st = (r, st1)" by (cases "applyOp operation st")
  have "votingPowerNonneg (fst st1)"
    using applyOp_nonneg[of st operation] Cons.prems step by simp
  moreover have "list_all nonnegDelegation rest" using Cons.prems by simp
  ultimately have "votingPowerNonneg (fst (applyOps rest st1))" by (rule Cons.IH)
  with \<open>votingPowerNonneg (fst st1)\<close> show ?case
    using step by (cases r) simp_all
qed

lemma exDPoS_validators:
  "dpos_validators exDPoS =
     [1 \<mapsto> NewValidator 1 [] MinStakeWei 0, 2 \<mapsto> NewValidator 2 [] MinStakeWei 0]"
  by (simp add: exDPoS_eq)

lemma exDPoS_nonneg: "votingPowerNonneg exDPoS"
  by (simp add: votingPowerNonneg_def votingPowerAt_def exDPoS_validators NewValidator_def
      MinStakeWei_def)

text \<open>
  C10, as amended. In a registry without a negative voting power, any sequence of
  \<^verbatim>\<open>Delegate\<close>, \<^verbatim>\<open>Undelegate\<close> and \<^verbatim>\<open>SlashValidator\<close> calls in which no \<^verbatim>\<open>Delegate\<close> carries a
  negative amount leaves every voting power at zero or above. \<^verbatim>\<open>Undelegate\<close> and
  \<^verbatim>\<open>SlashValidator\<close> lower a voting power through \<^verbatim>\<open>SubVotingPower\<close> only, which stops
  at zero; \<^verbatim>\<open>Delegate\<close> adds its amount as it comes.
\<close>

theorem votingPower_nonneg_invariant:
  assumes "votingPowerNonneg d" and "list_all nonnegDelegation ops"
  shows "votingPowerNonneg (fst (applyOps ops (d, events)))"
  using applyOps_nonneg[of "(d, events)" ops] assms by simp

text \<open>
  The theorem at the two registered validators and the sequence: delegate 50 to
  validator 1, take 20 of it back, slash validator 1 for downtime.
\<close>

theorem votingPower_nonneg_invariant_witness:
  "votingPowerNonneg exDPoS
   \<and> list_all nonnegDelegation
        [OpDelegate 5 1 50, OpUndelegate 5 1 20, OpSlashValidator 1 SlashingReasonDowntime 3]
   \<and> votingPowerNonneg
        (fst (applyOps
           [OpDelegate 5 1 50, OpUndelegate 5 1 20, OpSlashValidator 1 SlashingReasonDowntime 3]
           (exDPoS, [])))"
proof -
  have l: "list_all nonnegDelegation
        [OpDelegate 5 1 50, OpUndelegate 5 1 20, OpSlashValidator 1 SlashingReasonDowntime 3]"
    by simp
  from votingPower_nonneg_invariant[OF exDPoS_nonneg l, of "[]"] exDPoS_nonneg l
  show ?thesis by simp
qed

text \<open>
  C10 as it is written fails: validator 1 is registered with the minimum stake as its
  voting power, and one \<^verbatim>\<open>Delegate\<close> call with the amount \<open>- MinStakeWei - 1\<close> succeeds and
  leaves it at \<open>- 1\<close>.
\<close>

theorem Delegate_negative_amount_counterexample:
  "votingPowerAt exDPoS 1 = MinStakeWei
   \<and> votingPowerAt exDPoS 2 = MinStakeWei
   \<and> 0 \<le> MinStakeWei
   \<and> fst (Delegate exDPoS 5 1 (- MinStakeWei - 1)) = Ok
   \<and> votingPowerAt (fst (applyOps [OpDelegate 5 1 (- MinStakeWei - 1)] (exDPoS, []))) 1 = - 1"
  by (simp add: exDPoS_votingPower)
     (simp add: Delegate_def exDPoS_validators AddVotingPower_def NewValidator_def Let_def
       votingPowerAt_def MinStakeWei_def)

section \<open>Properties of the staking manager\<close>

lemma scanUnbondings_eq:
  "scanUnbondings cur us (c, r) = (c @ completedAt cur us, r @ pendingAt cur us)"
  unfolding completedAt_def pendingAt_def
  by (induction us arbitrary: c r) auto

text \<open>
  The outer loop, for an order without repetition: every key it visits keeps its
  pending entries, or is deleted when none is left, and the completed entries are
  collected key after key.
\<close>

lemma processQueue_eq:
  "distinct order \<Longrightarrow>
   processQueue cur order (q, c) =
     ((\<lambda>k. if k \<in> set order
            then (case q k of None \<Rightarrow> None
                  | Some us \<Rightarrow> if pendingAt cur us = [] then None else Some (pendingAt cur us))
            else q k),
      c @ concat (map (\<lambda>k. case q k of None \<Rightarrow> [] | Some us \<Rightarrow> completedAt cur us) order))"
proof (induction order arbitrary: q c)
  case Nil
  then show ?case by simp
next
  case (Cons k ks)
  then have d: "distinct ks" and nk: "k \<notin> set ks" by simp_all
  show ?case
  proof (cases "q k")
    case None
    then show ?thesis using Cons.IH[OF d, of q c] nk
      by (auto simp: fun_eq_iff)
  next
    case (Some us)
    define q' where
      "q' = (if pendingAt cur us = [] then q(k := None) else q(k \<mapsto> pendingAt cur us))"
    have step: "processQueue cur (k # ks) (q, c) = processQueue cur ks (q', c @ completedAt cur us)"
      using Some by (simp add: scanUnbondings_eq q'_def)
    have q'k: "q' x = q x" if "x \<noteq> k" for x using that by (simp add: q'_def)
    have q'kk: "q' k = (if pendingAt cur us = [] then None else Some (pendingAt cur us))"
      by (simp add: q'_def)
    have m: "map (\<lambda>x. case q' x of None \<Rightarrow> [] | Some us \<Rightarrow> completedAt cur us) ks
             = map (\<lambda>x. case q x of None \<Rightarrow> [] | Some us \<Rightarrow> completedAt cur us) ks"
    proof (intro map_cong refl)
      fix x assume "x \<in> set ks"
      then have "x \<noteq> k" using nk by auto
      then show "(case q' x of None \<Rightarrow> [] | Some us \<Rightarrow> completedAt cur us)
            = (case q x of None \<Rightarrow> [] | Some us \<Rightarrow> completedAt cur us)"
        by (simp add: q'k)
    qed
    have f: "(\<lambda>x. if x \<in> set ks
            then (case q' x of None \<Rightarrow> None
                  | Some us \<Rightarrow> if pendingAt cur us = [] then None else Some (pendingAt cur us))
            else q' x) =
          (\<lambda>x. if x \<in> set (k # ks)
            then (case q x of None \<Rightarrow> None
                  | Some us \<Rightarrow> if pendingAt cur us = [] then None else Some (pendingAt cur us))
            else q x)"
    proof
      fix x
      show "(if x \<in> set ks
            then (case q' x of None \<Rightarrow> None
                  | Some us \<Rightarrow> if pendingAt cur us = [] then None else Some (pendingAt cur us))
            else q' x) =
          (if x \<in> set (k # ks)
            then (case q x of None \<Rightarrow> None
                  | Some us \<Rightarrow> if pendingAt cur us = [] then None else Some (pendingAt cur us))
            else q x)"
      proof (cases "x = k")
        case True
        then show ?thesis using nk Some q'kk by simp
      next
        case False
        then show ?thesis by (simp add: q'k)
      qed
    qed
    show ?thesis
      unfolding step Cons.IH[OF d, of q' "c @ completedAt cur us"] m f
      using Some by simp
  qed
qed

lemma ProcessUnbonding_eq:
  assumes "distinct order"
  shows "ProcessUnbonding order sm cur =
     (concat (map (\<lambda>k. completedAt cur (GetUnbondingDelegations sm k)) order),
      sm\<lparr>sm_unbondingQueue :=
           (\<lambda>k. if k \<in> set order
            then (case sm_unbondingQueue sm k of None \<Rightarrow> None
                  | Some us \<Rightarrow> if pendingAt cur us = [] then None else Some (pendingAt cur us))
            else sm_unbondingQueue sm k)\<rparr>)"
proof -
  have "(\<lambda>k. case sm_unbondingQueue sm k of None \<Rightarrow> [] | Some us \<Rightarrow> completedAt cur us)
      = (\<lambda>k. completedAt cur (GetUnbondingDelegations sm k))"
    by (auto simp: fun_eq_iff GetUnbondingDelegations_def completedAt_def split: option.splits)
  then show ?thesis
    by (simp add: ProcessUnbonding_def processQueue_eq[OF assms])
qed

lemma ProcessUnbonding_completed:
  assumes "iterationOrder (sm_unbondingQueue sm) order"
  shows "fst (ProcessUnbonding order sm cur)
           = concat (map (\<lambda>k. completedAt cur (GetUnbondingDelegations sm k)) order)"
  using assms by (simp add: iterationOrder_def ProcessUnbonding_eq)

lemma ProcessUnbonding_remaining:
  assumes "iterationOrder (sm_unbondingQueue sm) order"
  shows "GetUnbondingDelegations (snd (ProcessUnbonding order sm cur)) k
           = pendingAt cur (GetUnbondingDelegations sm k)"
proof -
  from assms have d: "distinct order" and s: "set order = dom (sm_unbondingQueue sm)"
    by (simp_all add: iterationOrder_def)
  show ?thesis
  proof (cases "sm_unbondingQueue sm k")
    case None
    then have "k \<notin> set order" using s by auto
    then show ?thesis using None
      by (simp add: ProcessUnbonding_eq[OF d] GetUnbondingDelegations_def pendingAt_def)
  next
    case (Some us)
    then have "k \<in> set order" using s by auto
    then show ?thesis using Some
      by (simp add: ProcessUnbonding_eq[OF d] GetUnbondingDelegations_def)
  qed
qed

lemma ProcessUnbonding_period:
  "sm_unbondingPeriod (snd (ProcessUnbonding order sm cur)) = sm_unbondingPeriod sm"
  by (simp add: ProcessUnbonding_def split: prod.splits)

lemma Unstake_queue:
  assumes "Unstake d sm delegator validator amount H = (Ok, d', sm')"
  shows "sm_unbondingQueue sm' = (sm_unbondingQueue sm)(delegator \<mapsto>
           GetUnbondingDelegations sm delegator @
             [\<lparr>ubd_Delegator = delegator, ubd_Validator = validator, ubd_Amount = amount,
               ubd_CompletionBlock = H + sm_unbondingPeriod sm\<rparr>])"
    and "sm_unbondingPeriod sm' = sm_unbondingPeriod sm"
    and "Undelegate d delegator validator amount = (Ok, d')"
  using assms by (auto simp: Unstake_def Let_def split: prod.splits outcome.splits)

lemma completedAt_pendingAt: "completedAt cur (pendingAt cur us) = []"
  by (induction us) (auto simp: completedAt_def pendingAt_def)

lemma no_wrap:
  fixes H :: uint64
  assumes "unat H + 201600 < 2 ^ 64"
  shows "unat (H + UnbondingPeriod) = unat H + 201600"
proof -
  have "unat (H + UnbondingPeriod) = (unat H + unat UnbondingPeriod) mod 2 ^ 64"
    by (simp add: unat_word_ariths)
  also have "unat UnbondingPeriod = 201600" by (simp add: UnbondingPeriod_def)
  finally show ?thesis using assms by simp
qed

text \<open>
  C9. A successful \<^verbatim>\<open>Unstake\<close> at height \<open>H\<close>, by a manager whose unbonding period is
  \<open>UnbondingPeriod\<close> (the value a new manager is given and that no operation changes),
  appends to the delegator's queue one entry with completion block
  \<open>H + UnbondingPeriod\<close>, a sum of \<^verbatim>\<open>uint64\<close> that is the sum of the numbers as long as
  it stays below \<open>2 ^ 64\<close>, and leaves the other queues alone.
  \<^verbatim>\<open>ProcessUnbonding\<close> at block \<open>cur\<close>, in whatever order it meets the delegators, returns
  the queued entries whose completion block is at most \<open>cur\<close>, delegator after
  delegator in the order of each queue, and leaves in each queue the entries whose
  completion block is above \<open>cur\<close>; an entry that it has returned is no longer queued,
  and a second call at the same block returns nothing.
\<close>

theorem unbonding_lifecycle:
  "(Unstake d sm delegator validator amount H = (Ok, d', sm')
      \<and> sm_unbondingPeriod sm = UnbondingPeriod \<longrightarrow>
      GetUnbondingDelegations sm' delegator =
        GetUnbondingDelegations sm delegator @
          [\<lparr>ubd_Delegator = delegator, ubd_Validator = validator, ubd_Amount = amount,
            ubd_CompletionBlock = H + UnbondingPeriod\<rparr>]
      \<and> (\<forall>k. k \<noteq> delegator \<longrightarrow> sm_unbondingQueue sm' k = sm_unbondingQueue sm k)
      \<and> sm_unbondingPeriod sm' = UnbondingPeriod
      \<and> (unat H + 201600 < 2 ^ 64 \<longrightarrow> unat (H + UnbondingPeriod) = unat H + 201600))
   \<and> sm_unbondingPeriod NewStakingManager = UnbondingPeriod
   \<and> (iterationOrder (sm_unbondingQueue sm) order \<longrightarrow>
        fst (ProcessUnbonding order sm cur) =
          concat (map (\<lambda>k. filter (\<lambda>u. ubd_CompletionBlock u \<le> cur)
                              (GetUnbondingDelegations sm k)) order)
        \<and> (\<forall>k. GetUnbondingDelegations (snd (ProcessUnbonding order sm cur)) k =
                 filter (\<lambda>u. \<not> ubd_CompletionBlock u \<le> cur) (GetUnbondingDelegations sm k))
        \<and> sm_unbondingPeriod (snd (ProcessUnbonding order sm cur)) = sm_unbondingPeriod sm
        \<and> (\<forall>order'.
              iterationOrder (sm_unbondingQueue (snd (ProcessUnbonding order sm cur))) order' \<longrightarrow>
              fst (ProcessUnbonding order' (snd (ProcessUnbonding order sm cur)) cur) = []))"
proof -
  have a: "GetUnbondingDelegations sm' delegator =
        GetUnbondingDelegations sm delegator @
          [\<lparr>ubd_Delegator = delegator, ubd_Validator = validator, ubd_Amount = amount,
            ubd_CompletionBlock = H + UnbondingPeriod\<rparr>]
      \<and> (\<forall>k. k \<noteq> delegator \<longrightarrow> sm_unbondingQueue sm' k = sm_unbondingQueue sm k)
      \<and> sm_unbondingPeriod sm' = UnbondingPeriod
      \<and> (unat H + 201600 < 2 ^ 64 \<longrightarrow> unat (H + UnbondingPeriod) = unat H + 201600)"
    if u: "Unstake d sm delegator validator amount H = (Ok, d', sm')"
      and p: "sm_unbondingPeriod sm = UnbondingPeriod"
    using Unstake_queue(1,2)[OF u] p no_wrap[of H]
    by (simp add: GetUnbondingDelegations_def)
  have b: "sm_unbondingPeriod NewStakingManager = UnbondingPeriod"
    by (simp add: NewStakingManager_def)
  have c: "fst (ProcessUnbonding order sm cur) =
          concat (map (\<lambda>k. filter (\<lambda>u. ubd_CompletionBlock u \<le> cur)
                              (GetUnbondingDelegations sm k)) order)
        \<and> (\<forall>k. GetUnbondingDelegations (snd (ProcessUnbonding order sm cur)) k =
                 filter (\<lambda>u. \<not> ubd_CompletionBlock u \<le> cur) (GetUnbondingDelegations sm k))
        \<and> sm_unbondingPeriod (snd (ProcessUnbonding order sm cur)) = sm_unbondingPeriod sm
        \<and> (\<forall>order'.
              iterationOrder (sm_unbondingQueue (snd (ProcessUnbonding order sm cur))) order' \<longrightarrow>
              fst (ProcessUnbonding order' (snd (ProcessUnbonding order sm cur)) cur) = [])"
    if o: "iterationOrder (sm_unbondingQueue sm) order"
  proof -
    let ?sm2 = "snd (ProcessUnbonding order sm cur)"
    have c1: "fst (ProcessUnbonding order sm cur) =
          concat (map (\<lambda>k. filter (\<lambda>u. ubd_CompletionBlock u \<le> cur)
                              (GetUnbondingDelegations sm k)) order)"
      using ProcessUnbonding_completed[OF o, of cur] by (simp add: completedAt_def)
    have c2: "GetUnbondingDelegations ?sm2 k =
                 filter (\<lambda>u. \<not> ubd_CompletionBlock u \<le> cur) (GetUnbondingDelegations sm k)" for k
      using ProcessUnbonding_remaining[OF o, of cur k] by (simp add: pendingAt_def)
    have c4: "fst (ProcessUnbonding order' ?sm2 cur) = []"
      if o': "iterationOrder (sm_unbondingQueue ?sm2) order'" for order'
    proof -
      have "fst (ProcessUnbonding order' ?sm2 cur)
          = concat (map (\<lambda>k. completedAt cur (GetUnbondingDelegations ?sm2 k)) order')"
        by (rule ProcessUnbonding_completed[OF o'])
      also have "\<dots> = concat (map (\<lambda>k. []) order')"
        using ProcessUnbonding_remaining[OF o, of cur]
        by (simp add: completedAt_pendingAt)
      also have "\<dots> = []" by simp
      finally show ?thesis .
    qed
    show ?thesis using c1 c2 c4 ProcessUnbonding_period[of order sm cur] by blast
  qed
  show ?thesis using a b c by blast
qed

lemma exUnstake:
  "Unstake exDelegated NewStakingManager 5 1 20 1000 =
     (Ok, snd (Undelegate exDelegated 5 1 20),
      NewStakingManager\<lparr>sm_unbondingQueue :=
        [5 \<mapsto> [\<lparr>ubd_Delegator = 5, ubd_Validator = 1, ubd_Amount = 20,
                  ubd_CompletionBlock = 202600\<rparr>]]\<rparr>)"
proof -
  have "fst (Undelegate exDelegated 5 1 20) = Ok"
    by (simp add: Undelegate_def exDelegated_eq NewDelegation_def Let_def)
  then have u: "Undelegate exDelegated 5 1 20 = (Ok, snd (Undelegate exDelegated 5 1 20))"
    by (metis prod.collapse)
  show ?thesis
    unfolding Unstake_def
    by (subst u)
       (simp add: NewStakingManager_def GetUnbondingDelegations_def UnbondingPeriod_def Let_def)
qed

text \<open>
  The theorem at delegator 5, who has 50 with validator 1 and unstakes 20 at height
  1000: the entry completes at 202600; processed at 202599 it stays queued and nothing
  is returned, processed at 202600 it is returned and the queue is empty.
\<close>

theorem unbonding_lifecycle_witness:
  "fst (Unstake exDelegated NewStakingManager 5 1 20 1000) = Ok
   \<and> GetUnbondingDelegations (snd (snd (Unstake exDelegated NewStakingManager 5 1 20 1000))) 5 =
       [\<lparr>ubd_Delegator = 5, ubd_Validator = 1, ubd_Amount = 20, ubd_CompletionBlock = 202600\<rparr>]
   \<and> iterationOrder
        (sm_unbondingQueue (snd (snd (Unstake exDelegated NewStakingManager 5 1 20 1000)))) [5]
   \<and> fst (ProcessUnbonding [5]
            (snd (snd (Unstake exDelegated NewStakingManager 5 1 20 1000))) 202599) = []
   \<and> GetUnbondingDelegations
        (snd (ProcessUnbonding [5]
            (snd (snd (Unstake exDelegated NewStakingManager 5 1 20 1000))) 202599)) 5 =
       [\<lparr>ubd_Delegator = 5, ubd_Validator = 1, ubd_Amount = 20, ubd_CompletionBlock = 202600\<rparr>]
   \<and> fst (ProcessUnbonding [5]
            (snd (snd (Unstake exDelegated NewStakingManager 5 1 20 1000))) 202600) =
       [\<lparr>ubd_Delegator = 5, ubd_Validator = 1, ubd_Amount = 20, ubd_CompletionBlock = 202600\<rparr>]
   \<and> GetUnbondingDelegations
        (snd (ProcessUnbonding [5]
            (snd (snd (Unstake exDelegated NewStakingManager 5 1 20 1000))) 202600)) 5 = []"
proof -
  let ?sm1 = "snd (snd (Unstake exDelegated NewStakingManager 5 1 20 1000))"
  let ?entry = "\<lparr>ubd_Delegator = 5, ubd_Validator = 1, ubd_Amount = 20,
                  ubd_CompletionBlock = 202600 :: uint64\<rparr>"
  have p: "sm_unbondingPeriod NewStakingManager = UnbondingPeriod"
    by (simp add: NewStakingManager_def)
  have e: "GetUnbondingDelegations NewStakingManager 5 = []"
    by (simp add: GetUnbondingDelegations_def NewStakingManager_def)
  have w: "(1000 :: uint64) + UnbondingPeriod = 202600" by (simp add: UnbondingPeriod_def)
  have ok: "fst (Unstake exDelegated NewStakingManager 5 1 20 1000) = Ok"
    by (simp add: exUnstake)
  have u: "Unstake exDelegated NewStakingManager 5 1 20 1000 =
      (Ok, snd (Undelegate exDelegated 5 1 20), ?sm1)"
    by (simp add: exUnstake)
  from unbonding_lifecycle
         [of exDelegated NewStakingManager 5 1 20 1000 "snd (Undelegate exDelegated 5 1 20)" ?sm1]
       u p
  have q: "GetUnbondingDelegations ?sm1 5 = [?entry]"
    by (simp add: e w)
  have o: "iterationOrder (sm_unbondingQueue ?sm1) [5]"
    by (simp add: exUnstake iterationOrder_def)
  have lt: "\<not> (202600 :: uint64) \<le> 202599" by simp
  from unbonding_lifecycle[of _ ?sm1 _ _ _ _ _ _ "[5]" 202599] o
  have r1: "fst (ProcessUnbonding [5] ?sm1 202599) = []"
    and r2: "GetUnbondingDelegations (snd (ProcessUnbonding [5] ?sm1 202599)) 5 = [?entry]"
    by (simp_all add: q lt)
  from unbonding_lifecycle[of _ ?sm1 _ _ _ _ _ _ "[5]" 202600] o
  have r3: "fst (ProcessUnbonding [5] ?sm1 202600) = [?entry]"
    and r4: "GetUnbondingDelegations (snd (ProcessUnbonding [5] ?sm1 202600)) 5 = []"
    by (simp_all add: q)
  show ?thesis using ok q o r1 r2 r3 r4 by simp
qed

section \<open>Properties of the mempool\<close>

text \<open>\<^verbatim>\<open>down\<close> works below index \<open>n\<close> only.\<close>

lemma down_above: "n < length h \<Longrightarrow> down h i n ! n = h ! n"
proof (induction h i n rule: down.induct)
  case (1 h i n)
  show ?case
    apply (subst down.simps)
    using 1 by (auto simp: Let_def Swap_def)
qed

text \<open>
  \<^verbatim>\<open>heap.Pop\<close> swaps the root to the end, restores the heap below it and returns it:
  \<^verbatim>\<open>PriorityQueue.Pop\<close> returns the root of the heap, which \<^verbatim>\<open>Less\<close> makes the
  transaction of the highest gas price.
\<close>

lemma Pop_returns_root:
  assumes "pq_items pq \<noteq> []"
  shows "fst (Pop pq) = Some (pq_items pq ! 0)"
proof -
  let ?h = "pq_items pq"
  let ?n = "length ?h - 1"
  have n: "?n < length (Swap ?h 0 ?n)" using assms by (simp add: Swap_def)
  have "down (Swap ?h 0 ?n) 0 ?n ! ?n = Swap ?h 0 ?n ! ?n"
    by (rule down_above[OF n])
  also have "\<dots> = ?h ! 0" using assms by (simp add: Swap_def)
  finally show ?thesis
    using assms by (simp add: Pop_def heapPop_def Let_def)
qed

lemma up_root: "up h 0 = h"
  by (subst up.simps) simp

lemma up_child_of_root:
  "up h (Suc 0) = (if Less h (Suc 0) 0 then Swap h 0 (Suc 0) else h)"
  by (subst up.simps) (simp add: up_root)

lemma down_leaf: "n \<le> 2 * i + 1 \<Longrightarrow> down h i n = h"
  by (subst down.simps) simp

lemma poolTx_fields: "tx_GasPrice (poolTx h price) = price" "tx_Hash (poolTx h price) = h"
  by (simp_all add: poolTx_def)

lemma poolTx_valid: "0 < price \<Longrightarrow> Validate (poolTx h price) = None"
  by (simp add: Validate_def poolTx_def)

lemma pool_one:
  "AddTransaction (NewMempool 2) (poolTx 1 1) =
     (None, \<lparr>mp_transactions = [(1, poolTx 1 1)],
             mp_queue = \<lparr>pq_items = [poolTx 1 1]\<rparr>, mp_maxSize = 2\<rparr>)"
  by (simp add: AddTransaction_def NewMempool_def NewPriorityQueue_def poolTx_valid
      poolTx_fields Push_def heapPush_def up_root Let_def)

lemma fullPool_eq:
  "fullPool =
     \<lparr>mp_transactions = [(1, poolTx 1 1), (2, poolTx 2 2)],
      mp_queue = \<lparr>pq_items = [poolTx 2 2, poolTx 1 1]\<rparr>, mp_maxSize = 2\<rparr>"
  by (simp add: fullPool_def pool_one)
     (simp add: AddTransaction_def poolTx_valid poolTx_fields Push_def heapPush_def
       up_child_of_root Less_def Swap_def Let_def)

text \<open>
  C5, at a full mempool. The mempool has capacity 2 and holds the transactions of gas
  price 1 and 2; the transaction of gas price 3 is new and valid. \<^verbatim>\<open>AddTransaction\<close>
  admits it and evicts one transaction, the one of gas price 2: the transaction of the
  lowest gas price, 1, is still in the index and in the queue. \<^verbatim>\<open>queue.Pop\<close> removes the
  transaction of the highest priority, not of the lowest.
\<close>

theorem AddTransaction_evicts_highest_gas_price:
  "fullPool =
     \<lparr>mp_transactions = [(1, poolTx 1 1), (2, poolTx 2 2)],
      mp_queue = \<lparr>pq_items = [poolTx 2 2, poolTx 1 1]\<rparr>, mp_maxSize = 2\<rparr>
   \<and> Validate (poolTx 3 3) = None
   \<and> fst (Pop (mp_queue fullPool)) = Some (poolTx 2 2)
   \<and> AddTransaction fullPool (poolTx 3 3) =
       (None,
        \<lparr>mp_transactions = [(1, poolTx 1 1), (3, poolTx 3 3)],
         mp_queue = \<lparr>pq_items = [poolTx 3 3, poolTx 1 1]\<rparr>, mp_maxSize = 2\<rparr>)"
proof -
  have v: "Validate (poolTx 3 3) = None" by (simp add: poolTx_valid)
  have p: "fst (Pop (mp_queue fullPool)) = Some (poolTx 2 2)"
    by (simp add: fullPool_eq Pop_returns_root)
  have a: "AddTransaction fullPool (poolTx 3 3) =
       (None,
        \<lparr>mp_transactions = [(1, poolTx 1 1), (3, poolTx 3 3)],
         mp_queue = \<lparr>pq_items = [poolTx 3 3, poolTx 1 1]\<rparr>, mp_maxSize = 2\<rparr>)"
    by (simp add: fullPool_eq AddTransaction_def poolTx_valid poolTx_fields Pop_def
        heapPop_def Push_def heapPush_def up_child_of_root down_leaf Less_def Swap_def Let_def
        AList.delete_eq)
  show ?thesis using fullPool_eq v p a by simp
qed

end
